theory Spec2Isabelle
  imports Main "HOL-Library.Char_ord" "HOL-Library.List_Lexorder" "HOL-Library.Sublist"
begin

section \<open>Security-group synchronisation: model of sync\_security\_group.py\<close>

text \<open>
  The script talks to five collaborators (two HTTP endpoints, the EC2 API, the YAML file
  and git). Each of them is a field of a record of answers, and every function of the
  script is a function from these answers to the list of operations it performs, in
  order, together with the way it ends: a value, a raised exception, or
  \<^verbatim>\<open>sys.exit\<close>.
\<close>

subsection \<open>Constants\<close>

definition YAML_FILE :: string where
  "YAML_FILE = ''security-group.yaml''"

definition CHECKIP_URL :: string where
  "CHECKIP_URL = ''https://checkip.amazonaws.com''"

definition CLOUDFLARE_IPV4_URL :: string where
  "CLOUDFLARE_IPV4_URL = ''https://www.cloudflare.com/ips-v4''"

definition SSH_PORT :: int where
  "SSH_PORT = 22"

definition HTTP_PORT :: int where
  "HTTP_PORT = 80"

subsection \<open>Data\<close>

text \<open>
  Exceptions. Every one of them is a subclass of Python's \<^verbatim>\<open>Exception\<close>;
  \<^verbatim>\<open>SystemExit\<close> is not, and is kept apart (type \<open>abort\<close> below).
\<close>

datatype exn =
    KeyError
  | IndexError
  | TypeError
  | HTTPError
  | ClientError
  | NoCredentialsError
  | PartialCredentialsError
  | CalledProcessError
  | OtherError

text \<open>
  A dictionary of \<^verbatim>\<open>IpRanges\<close> and a dictionary of
  \<^verbatim>\<open>IpPermissions\<close> as the EC2 API returns them. The script reads the
  keys with \<^verbatim>\<open>.get\<close>, so each key may be absent (\<open>None\<close>).
\<close>

record ip_range =
  CidrIp :: "string option"

record ip_permission =
  IpProtocol :: "string option"
  FromPort :: "int option"
  ToPort :: "int option"
  IpRanges :: "ip_range list option"

record security_group =
  GroupId :: string
  IpPermissions :: "ip_permission list"

text \<open>
  The argument of \<^verbatim>\<open>authorize_security_group_ingress\<close> and
  \<^verbatim>\<open>revoke_security_group_ingress\<close>: one permission for one group. Its
  \<^verbatim>\<open>IpRanges\<close> are built by iterating over a Python set, in an order the
  language does not fix; the request keeps the set of the \<^verbatim>\<open>CidrIp\<close>
  values.
\<close>

record ingress_request =
  req_GroupId :: string
  req_IpProtocol :: string
  req_FromPort :: int
  req_ToPort :: int
  req_CidrIps :: "string set"

datatype describe_args =
    ByGroupIds "string list"
  | ByFilters "(string \<times> string list) list"

text \<open>
  The YAML document: the dictionary under the key \<^verbatim>\<open>rules\<close> (absent:
  \<open>None\<close>), in insertion order, and the other keys of the document.
\<close>

record config =
  rules :: "(string \<times> string list) list option"
  other_keys :: "(string \<times> string) list"

text \<open>What the script prints, one constructor for each \<^verbatim>\<open>print\<close>.\<close>

datatype message =
    Rule_Line
  | Title
  | Home_IP string
  | Fetched_Ranges nat
  | Detected_Region string
  | Found_Group string
  | Synced
  | Updated_Yaml
  | Completed
  | Test_URL
  | Error_Public_IP exn
  | Error_Cloudflare exn
  | Yaml_Not_Found
  | Group_Not_Named
  | Found_SSH_Group string
  | Error_No_Group
  | Credentials_Not_Found
  | Run_Aws_Configure
  | Error_Finding_Group exn
  | Adding_SSH
  | Revoking nat
  | Authorizing nat
  | Error_Updating exn
  | No_Changes
  | Committing
  | Git_Failed exn

text \<open>The operations on the outside world, as the script performs them.\<close>

datatype event =
    Http_Get string
  | Describe describe_args
  | Authorize ingress_request
  | Revoke ingress_request
  | Path_Exists string
  | Read_Yaml string
  | Write_Yaml string config
  | Subprocess "string list"
  | Print message

datatype abort = Raised exn | SysExit int

type_synonym 'a io = "event list \<times> (abort + 'a)"

subsection \<open>The collaborators\<close>

record http_response =
  status_code :: int
  text_body :: string

text \<open>
  The EC2 client: the answer of \<^verbatim>\<open>describe_security_groups\<close> (the list
  under \<^verbatim>\<open>SecurityGroups\<close>, or the exception raised), and for each mutation
  whether it raises.
\<close>

record ec2_client =
  describe_security_groups :: "describe_args \<Rightarrow> exn + security_group list"
  authorize_security_group_ingress :: "ingress_request \<Rightarrow> exn option"
  revoke_security_group_ingress :: "ingress_request \<Rightarrow> exn option"

record world =
  requests_get :: "string \<Rightarrow> exn + http_response"
  region_name :: "string option"
  client :: "string \<Rightarrow> ec2_client"
  path_exists :: "string \<Rightarrow> bool"
  yaml_safe_load :: "string \<Rightarrow> exn + config option"
  yaml_dump :: "string \<Rightarrow> config \<Rightarrow> exn option"
  run :: "string list \<Rightarrow> exn + string"

subsection \<open>Sequencing\<close>

definition return_io :: "'a \<Rightarrow> 'a io" where
  "return_io x = ([], Inr x)"

definition emit :: "event \<Rightarrow> unit io" where
  "emit e = ([e], Inr ())"

definition raise_io :: "exn \<Rightarrow> 'a io" where
  "raise_io e = ([], Inl (Raised e))"

definition sys_exit :: "int \<Rightarrow> 'a io" where
  "sys_exit n = ([], Inl (SysExit n))"

definition bind_io :: "'a io \<Rightarrow> ('a \<Rightarrow> 'b io) \<Rightarrow> 'b io" where
  "bind_io m f =
     (case snd m of
        Inl a \<Rightarrow> (fst m, Inl a)
      | Inr x \<Rightarrow> (fst m @ fst (f x), snd (f x)))"

definition then_io :: "'a io \<Rightarrow> 'b io \<Rightarrow> 'b io" where
  "then_io m k = bind_io m (\<lambda>_. k)"

definition of_result :: "exn + 'a \<Rightarrow> 'a io" where
  "of_result r = (case r of Inl e \<Rightarrow> raise_io e | Inr x \<Rightarrow> return_io x)"

definition of_raising :: "exn option \<Rightarrow> unit io" where
  "of_raising r = (case r of Some e \<Rightarrow> raise_io e | None \<Rightarrow> return_io ())"

text \<open>
  \<^verbatim>\<open>try: m except C as e: handler(e)\<close>, where \<open>catches e\<close> says that
  the exception is of class \<^verbatim>\<open>C\<close>. \<^verbatim>\<open>SystemExit\<close> passes through.
\<close>

definition try_except :: "'a io \<Rightarrow> (exn \<Rightarrow> bool) \<Rightarrow> (exn \<Rightarrow> 'a io) \<Rightarrow> 'a io" where
  "try_except m catches handler =
     (case snd m of
        Inl (Raised e) \<Rightarrow>
          (if catches e then (fst m @ fst (handler e), snd (handler e)) else m)
      | _ \<Rightarrow> m)"

definition print :: "message \<Rightarrow> unit io" where
  "print msg = emit (Print msg)"

subsection \<open>The EC2 calls\<close>

definition describe :: "ec2_client \<Rightarrow> describe_args \<Rightarrow> security_group list io" where
  "describe ec2 args = then_io (emit (Describe args)) (of_result (describe_security_groups ec2 args))"

definition authorize :: "ec2_client \<Rightarrow> ingress_request \<Rightarrow> unit io" where
  "authorize ec2 req =
     then_io (emit (Authorize req)) (of_raising (authorize_security_group_ingress ec2 req))"

definition revoke :: "ec2_client \<Rightarrow> ingress_request \<Rightarrow> unit io" where
  "revoke ec2 req =
     then_io (emit (Revoke req)) (of_raising (revoke_security_group_ingress ec2 req))"

text \<open>\<^verbatim>\<open>xs[0]\<close>: the first element, \<^verbatim>\<open>IndexError\<close> on the empty list.\<close>

definition first_item :: "'a list \<Rightarrow> 'a io" where
  "first_item xs = (case xs of [] \<Rightarrow> raise_io IndexError | x # _ \<Rightarrow> return_io x)"

subsection \<open>update\_security\_group\<close>

text \<open>\<^verbatim>\<open>perm.get('IpRanges', [])\<close>\<close>

definition get_IpRanges :: "ip_permission \<Rightarrow> ip_range list" where
  "get_IpRanges perm = (case IpRanges perm of None \<Rightarrow> [] | Some rs \<Rightarrow> rs)"

definition on_port :: "int \<Rightarrow> ip_permission \<Rightarrow> bool" where
  "on_port port perm = (FromPort perm = Some port \<and> ToPort perm = Some port)"

text \<open>
  Step 1, the inner loop: the flag becomes true at the first range whose
  \<^verbatim>\<open>CidrIp\<close> is \<^verbatim>\<open>0.0.0.0/0\<close>, and the loop stops there.
\<close>

fun scan_ranges :: "bool \<Rightarrow> ip_range list \<Rightarrow> bool" where
  "scan_ranges ssh_open [] = ssh_open"
| "scan_ranges ssh_open (ip_range # rest) =
     (if CidrIp ip_range = Some ''0.0.0.0/0'' then True else scan_ranges ssh_open rest)"

text \<open>Step 1, the outer loop over the permissions; the flag is never reset.\<close>

fun scan_ssh :: "bool \<Rightarrow> ip_permission list \<Rightarrow> bool" where
  "scan_ssh ssh_open [] = ssh_open"
| "scan_ssh ssh_open (perm # rest) =
     scan_ssh
       (if on_port SSH_PORT perm then scan_ranges ssh_open (get_IpRanges perm) else ssh_open)
       rest"

text \<open>
  Step 2, the inner loop: \<^verbatim>\<open>current_http_cidrs.add(ip_range['CidrIp'])\<close>,
  which raises \<^verbatim>\<open>KeyError\<close> on a range without the key.
\<close>

fun add_ranges :: "string set \<Rightarrow> ip_range list \<Rightarrow> exn + string set" where
  "add_ranges current [] = Inr current"
| "add_ranges current (ip_range # rest) =
     (case CidrIp ip_range of
        None \<Rightarrow> Inl KeyError
      | Some cidr \<Rightarrow> add_ranges (insert cidr current) rest)"

fun collect_http :: "string set \<Rightarrow> ip_permission list \<Rightarrow> exn + string set" where
  "collect_http current [] = Inr current"
| "collect_http current (perm # rest) =
     (if on_port HTTP_PORT perm then
        (case add_ranges current (get_IpRanges perm) of
           Inl e \<Rightarrow> Inl e
         | Inr current' \<Rightarrow> collect_http current' rest)
      else collect_http current rest)"

definition ssh_request :: "string \<Rightarrow> ingress_request" where
  "ssh_request sg_id =
     \<lparr>req_GroupId = sg_id, req_IpProtocol = ''tcp'', req_FromPort = SSH_PORT,
      req_ToPort = SSH_PORT, req_CidrIps = {''0.0.0.0/0''}\<rparr>"

definition http_request :: "string \<Rightarrow> string set \<Rightarrow> ingress_request" where
  "http_request sg_id cidrs =
     \<lparr>req_GroupId = sg_id, req_IpProtocol = ''tcp'', req_FromPort = HTTP_PORT,
      req_ToPort = HTTP_PORT, req_CidrIps = cidrs\<rparr>"

text \<open>The statements after the scan for SSH, up to \<^verbatim>\<open>return True\<close>.\<close>

definition sync_http :: "ec2_client \<Rightarrow> string \<Rightarrow> string list \<Rightarrow> ip_permission list \<Rightarrow> bool io" where
  "sync_http ec2 sg_id allowed_cidrs current_permissions =
     bind_io (of_result (collect_http {} current_permissions)) (\<lambda>current_http_cidrs.
       let target_http_cidrs = set allowed_cidrs;
           to_revoke = current_http_cidrs - target_http_cidrs;
           to_authorize = target_http_cidrs - current_http_cidrs
       in
         then_io
           (if to_revoke \<noteq> {} then
              then_io (print (Revoking (card to_revoke)))
                (revoke ec2 (http_request sg_id to_revoke))
            else return_io ())
           (then_io
              (if to_authorize \<noteq> {} then
                 then_io (print (Authorizing (card to_authorize)))
                   (authorize ec2 (http_request sg_id to_authorize))
               else return_io ())
              (return_io True)))"

definition ensure_ssh :: "ec2_client \<Rightarrow> string \<Rightarrow> ip_permission list \<Rightarrow> unit io" where
  "ensure_ssh ec2 sg_id current_permissions =
     (let ssh_open = scan_ssh False current_permissions in
        if \<not> ssh_open then
          then_io (print Adding_SSH) (authorize ec2 (ssh_request sg_id))
        else return_io ())"

definition update_security_group :: "ec2_client \<Rightarrow> string \<Rightarrow> string list \<Rightarrow> bool io" where
  "update_security_group ec2 sg_id allowed_cidrs =
     try_except
       (bind_io (describe ec2 (ByGroupIds [sg_id])) (\<lambda>response.
        bind_io (first_item response) (\<lambda>sg.
          let current_permissions = IpPermissions sg in
            then_io (ensure_ssh ec2 sg_id current_permissions)
              (sync_http ec2 sg_id allowed_cidrs current_permissions))))
       (\<lambda>e. True)
       (\<lambda>e. then_io (print (Error_Updating e)) (sys_exit 1))"

subsection \<open>Strings\<close>

text \<open>
  \<^verbatim>\<open>str.strip()\<close> and \<^verbatim>\<open>str.splitlines()\<close>. A character is a code
  point below 256. The white space is what \<^verbatim>\<open>str.isspace\<close> accepts among
  these: the ASCII white space, U+0085 and U+00A0. The line boundaries are those of
  \<^verbatim>\<open>str.splitlines\<close> among these: the ASCII ones and U+0085.
\<close>

definition isspace :: "char \<Rightarrow> bool" where
  "isspace c = ((of_char c :: nat) \<in> {9, 10, 11, 12, 13, 28, 29, 30, 31, 32, 133, 160})"

definition is_linebreak :: "char \<Rightarrow> bool" where
  "is_linebreak c = ((of_char c :: nat) \<in> {10, 11, 12, 13, 28, 29, 30, 133})"

definition strip :: "string \<Rightarrow> string" where
  "strip s = rev (dropWhile isspace (rev (dropWhile isspace s)))"

fun splitlines_from :: "string \<Rightarrow> string \<Rightarrow> string list" where
  "splitlines_from line [] = (if line = [] then [] else [line])"
| "splitlines_from line [c] = (if is_linebreak c then [line] else [line @ [c]])"
| "splitlines_from line (c # d # cs) =
     (if (of_char c :: nat) = 13 \<and> (of_char d :: nat) = 10 then line # splitlines_from [] cs
      else if is_linebreak c then line # splitlines_from [] (d # cs)
      else splitlines_from (line @ [c]) (d # cs))"

definition splitlines :: "string \<Rightarrow> string list" where
  "splitlines s = splitlines_from [] s"

subsection \<open>The two address sources\<close>

text \<open>\<^verbatim>\<open>requests.get(url)\<close> followed by \<^verbatim>\<open>raise_for_status()\<close>.\<close>

definition get_ok :: "world \<Rightarrow> string \<Rightarrow> http_response io" where
  "get_ok w url =
     then_io (emit (Http_Get url))
       (bind_io (of_result (requests_get w url)) (\<lambda>response.
          if 400 \<le> status_code response \<and> status_code response < 600 then raise_io HTTPError
          else return_io response))"

definition get_current_ip :: "world \<Rightarrow> string io" where
  "get_current_ip w =
     try_except
       (bind_io (get_ok w CHECKIP_URL) (\<lambda>response.
          return_io (strip (text_body response) @ ''/32'')))
       (\<lambda>e. True)
       (\<lambda>e. then_io (print (Error_Public_IP e)) (sys_exit 1))"

definition get_cloudflare_ips :: "world \<Rightarrow> string list io" where
  "get_cloudflare_ips w =
     try_except
       (bind_io (get_ok w CLOUDFLARE_IPV4_URL) (\<lambda>response.
          return_io (map strip (filter (\<lambda>ip. strip ip \<noteq> []) (splitlines (text_body response))))))
       (\<lambda>e. True)
       (\<lambda>e. then_io (print (Error_Cloudflare e)) (sys_exit 1))"

subsection \<open>The YAML file\<close>

definition load_yaml_config :: "world \<Rightarrow> config io" where
  "load_yaml_config w =
     then_io (emit (Path_Exists YAML_FILE))
       (if \<not> path_exists w YAML_FILE then then_io (print Yaml_Not_Found) (sys_exit 1)
        else
          then_io (emit (Read_Yaml YAML_FILE))
            (bind_io (of_result (yaml_safe_load w YAML_FILE)) (\<lambda>loaded.
               return_io
                 (case loaded of
                    None \<Rightarrow> \<lparr>rules = None, other_keys = []\<rparr>
                  | Some c \<Rightarrow> c))))"

definition save_yaml_config :: "world \<Rightarrow> config \<Rightarrow> unit io" where
  "save_yaml_config w cfg =
     then_io (emit (Write_Yaml YAML_FILE cfg)) (of_raising (yaml_dump w YAML_FILE cfg))"

text \<open>\<^verbatim>\<open>d[k] = v\<close> on a dictionary kept in insertion order.\<close>

fun dict_set :: "'k \<Rightarrow> 'v \<Rightarrow> ('k \<times> 'v) list \<Rightarrow> ('k \<times> 'v) list" where
  "dict_set k v [] = [(k, v)]"
| "dict_set k v ((k', v') # rest) =
     (if k' = k then (k, v) # rest else (k', v') # dict_set k v rest)"

text \<open>Step 6 of \<^verbatim>\<open>main\<close>: the two assignments into the loaded document.\<close>

definition set_rules :: "string list \<Rightarrow> config \<Rightarrow> config io" where
  "set_rules target_http_cidrs cfg =
     (case rules cfg of
        None \<Rightarrow> raise_io KeyError
      | Some rs \<Rightarrow>
          (let rs1 = dict_set ''http'' target_http_cidrs rs;
               rs2 = (if ''ssh'' \<notin> fst ` set rs1 then dict_set ''ssh'' [''0.0.0.0/0''] rs1
                      else rs1)
           in return_io (cfg\<lparr>rules := Some rs2\<rparr>)))"

subsection \<open>get\_security\_group\_id\<close>

definition name_filter :: describe_args where
  "name_filter = ByFilters [(''group-name'', [''security-group''])]"

definition ssh_filter :: describe_args where
  "ssh_filter =
     ByFilters [(''ip-permission.from-port'', [''22'']),
                (''ip-permission.to-port'', [''22'']),
                (''ip-permission.cidr'', [''0.0.0.0/0''])]"

definition get_security_group_id :: "ec2_client \<Rightarrow> string io" where
  "get_security_group_id ec2 =
     try_except
       (try_except
          (bind_io (describe ec2 name_filter) (\<lambda>response.
             if response \<noteq> [] then return_io (GroupId (hd response))
             else
               then_io (print Group_Not_Named)
                 (bind_io (describe ec2 ssh_filter) (\<lambda>response.
                    if response \<noteq> [] then
                      (let sg = hd response in
                         then_io (print (Found_SSH_Group (GroupId sg))) (return_io (GroupId sg)))
                    else then_io (print Error_No_Group) (sys_exit 1)))))
          (\<lambda>e. e = NoCredentialsError \<or> e = PartialCredentialsError)
          (\<lambda>e. then_io (print Credentials_Not_Found)
                 (then_io (print Run_Aws_Configure) (sys_exit 1))))
       (\<lambda>e. True)
       (\<lambda>e. then_io (print (Error_Finding_Group e)) (sys_exit 1))"

subsection \<open>git\_commit\_and\_push\<close>

definition check_call :: "world \<Rightarrow> string list \<Rightarrow> string io" where
  "check_call w args = then_io (emit (Subprocess args)) (of_result (run w args))"

definition git_status :: "string list" where
  "git_status = [''git'', ''status'', ''--porcelain'']"

definition git_pull :: "string list" where
  "git_pull = [''git'', ''pull'']"

definition git_add :: "string list" where
  "git_add = [''git'', ''add'', YAML_FILE]"

definition git_commit :: "string list" where
  "git_commit = [''git'', ''commit'', ''-m'', ''Update security group rules [skip ci]'']"

definition git_push :: "string list" where
  "git_push = [''git'', ''push'']"

definition git_commit_and_push :: "world \<Rightarrow> unit io" where
  "git_commit_and_push w =
     try_except
       (bind_io (check_call w git_status) (\<lambda>status.
          if status = [] then print No_Changes
          else
            then_io (print Committing)
              (then_io (check_call w git_pull)
                 (then_io (check_call w git_add)
                    (then_io (check_call w git_commit)
                       (then_io (check_call w git_push) (return_io ())))))))
       (\<lambda>e. e = CalledProcessError)
       (\<lambda>e. print (Git_Failed e))"

subsection \<open>main\<close>

text \<open>
  \<^verbatim>\<open>sorted(list(set([home_ip] + cf_ips)))\<close>. Strings are ordered as Python orders
  them: character by character, by character code, a proper prefix before its extensions.
\<close>

definition target_cidrs :: "string \<Rightarrow> string list \<Rightarrow> string list" where
  "target_cidrs home_ip cf_ips = sorted_list_of_set (set ([home_ip] @ cf_ips))"

text \<open>Step 3: the region of the session, \<^verbatim>\<open>eu-west-1\<close> when none is configured.\<close>

definition detect_region :: "world \<Rightarrow> string" where
  "detect_region w =
     (case region_name w of
        None \<Rightarrow> ''eu-west-1''
      | Some region \<Rightarrow> (if region = [] then ''eu-west-1'' else region))"

text \<open>Step 6: load the YAML file, set the rules, save it.\<close>

definition update_yaml :: "world \<Rightarrow> string list \<Rightarrow> unit io" where
  "update_yaml w target_http_cidrs =
     bind_io (load_yaml_config w) (\<lambda>cfg.
       bind_io (set_rules target_http_cidrs cfg) (\<lambda>cfg'.
         then_io (save_yaml_config w cfg') (print Updated_Yaml)))"

text \<open>Steps 5 and 6: synchronise the group, then rewrite the YAML file.\<close>

definition sync_and_save :: "world \<Rightarrow> ec2_client \<Rightarrow> string \<Rightarrow> string list \<Rightarrow> unit io" where
  "sync_and_save w ec2 sg_id target_http_cidrs =
     then_io (update_security_group ec2 sg_id target_http_cidrs)
       (then_io (print Synced) (update_yaml w target_http_cidrs))"

text \<open>Step 7 and the closing lines.\<close>

definition commit_and_report :: "world \<Rightarrow> unit io" where
  "commit_and_report w =
     then_io (git_commit_and_push w)
       (then_io (print Rule_Line)
          (then_io (print Completed)
             (then_io (print Test_URL) (print Rule_Line))))"

definition main :: "world \<Rightarrow> unit io" where
  "main w =
     then_io (print Rule_Line) (then_io (print Title) (then_io (print Rule_Line)
       (bind_io (get_current_ip w) (\<lambda>home_ip.
        then_io (print (Home_IP home_ip))
          (bind_io (get_cloudflare_ips w) (\<lambda>cf_ips.
           then_io (print (Fetched_Ranges (length cf_ips)))
             (let target_http_cidrs = target_cidrs home_ip cf_ips;
                  region = detect_region w;
                  ec2 = client w region
              in
                then_io (print (Detected_Region region))
                  (bind_io (get_security_group_id ec2) (\<lambda>sg_id.
                     then_io (print (Found_Group sg_id))
                       (then_io (sync_and_save w ec2 sg_id target_http_cidrs)
                          (commit_and_report w)))))))))))"

text \<open>The exit status of the process: 0 when \<^verbatim>\<open>main\<close> returns, 1 otherwise.\<close>

definition exit_code :: "'a io \<Rightarrow> int" where
  "exit_code r = (case snd r of Inr _ \<Rightarrow> 0 | Inl (SysExit n) \<Rightarrow> n | Inl (Raised _) \<Rightarrow> 1)"

section \<open>Notions used in the statements\<close>

subsection \<open>Reading a list of operations\<close>

fun is_print :: "event \<Rightarrow> bool" where
  "is_print (Print _) = True"
| "is_print _ = False"

text \<open>The operations on the collaborators, without what is printed.\<close>

definition io_events :: "event list \<Rightarrow> event list" where
  "io_events t = filter (\<lambda>e. \<not> is_print e) t"

fun is_mutation :: "event \<Rightarrow> bool" where
  "is_mutation (Authorize _) = True"
| "is_mutation (Revoke _) = True"
| "is_mutation _ = False"

text \<open>The calls of the mutation sink.\<close>

definition mutations :: "event list \<Rightarrow> event list" where
  "mutations t = filter is_mutation t"

definition on_ports :: "int \<Rightarrow> ingress_request \<Rightarrow> bool" where
  "on_ports port r = (req_FromPort r = port \<and> req_ToPort r = port)"

fun is_ssh_add :: "event \<Rightarrow> bool" where
  "is_ssh_add (Authorize r) = on_ports SSH_PORT r"
| "is_ssh_add _ = False"

fun is_http_revoke :: "event \<Rightarrow> bool" where
  "is_http_revoke (Revoke r) = on_ports HTTP_PORT r"
| "is_http_revoke _ = False"

fun is_http_authorize :: "event \<Rightarrow> bool" where
  "is_http_authorize (Authorize r) = on_ports HTTP_PORT r"
| "is_http_authorize _ = False"

fun is_ssh_revoke :: "event \<Rightarrow> bool" where
  "is_ssh_revoke (Revoke r) = (req_FromPort r = SSH_PORT \<or> req_ToPort r = SSH_PORT)"
| "is_ssh_revoke _ = False"

fun request_of :: "event \<Rightarrow> ingress_request option" where
  "request_of (Authorize r) = Some r"
| "request_of (Revoke r) = Some r"
| "request_of _ = None"

text \<open>The CIDRs that the calls on the HTTP port revoke, and those they authorize.\<close>

fun revoked_by :: "event \<Rightarrow> string set" where
  "revoked_by (Revoke r) = (if on_ports HTTP_PORT r then req_CidrIps r else {})"
| "revoked_by _ = {}"

fun authorized_by :: "event \<Rightarrow> string set" where
  "authorized_by (Authorize r) = (if on_ports HTTP_PORT r then req_CidrIps r else {})"
| "authorized_by _ = {}"

definition http_revoked :: "event list \<Rightarrow> string set" where
  "http_revoked t = \<Union> (set (map revoked_by t))"

definition http_authorized :: "event list \<Rightarrow> string set" where
  "http_authorized t = \<Union> (set (map authorized_by t))"

subsection \<open>The mutation sink, on the CIDR set of one port\<close>

text \<open>
  The contract of the sink, as the firewall keeps it: authorizing adds the CIDRs of the
  request to the rule of its port, revoking removes them; a call on another port, and
  any other operation, leaves the rule as it is.
\<close>

fun apply_event :: "int \<Rightarrow> event \<Rightarrow> string set \<Rightarrow> string set" where
  "apply_event port (Authorize r) s = (if on_ports port r then s \<union> req_CidrIps r else s)"
| "apply_event port (Revoke r) s = (if on_ports port r then s - req_CidrIps r else s)"
| "apply_event port _ s = s"

definition apply_events :: "int \<Rightarrow> event list \<Rightarrow> string set \<Rightarrow> string set" where
  "apply_events port t s = fold (apply_event port) t s"

subsection \<open>The current rules, read off the permissions\<close>

text \<open>The CIDRs of the permissions on the HTTP port, and whether SSH is open to all.\<close>

definition current_http_cidrs :: "ip_permission list \<Rightarrow> string set" where
  "current_http_cidrs perms =
     set (List.map_filter CidrIp (concat (map get_IpRanges (filter (on_port HTTP_PORT) perms))))"

definition ssh_is_open :: "ip_permission list \<Rightarrow> bool" where
  "ssh_is_open perms =
     (\<exists>p \<in> set perms. on_port SSH_PORT p \<and> Some ''0.0.0.0/0'' \<in> CidrIp ` set (get_IpRanges p))"

subsection \<open>The operations of a run, written out\<close>

definition ssh_part :: "string \<Rightarrow> ip_permission list \<Rightarrow> event list" where
  "ssh_part sg_id perms =
     (if scan_ssh False perms then [] else [Print Adding_SSH, Authorize (ssh_request sg_id)])"

definition revoke_part :: "string \<Rightarrow> string set \<Rightarrow> event list" where
  "revoke_part sg_id cidrs =
     (if cidrs = {} then [] else [Print (Revoking (card cidrs)), Revoke (http_request sg_id cidrs)])"

definition authorize_part :: "string \<Rightarrow> string set \<Rightarrow> event list" where
  "authorize_part sg_id cidrs =
     (if cidrs = {} then []
      else [Print (Authorizing (card cidrs)), Authorize (http_request sg_id cidrs)])"

definition update_body :: "ec2_client \<Rightarrow> string \<Rightarrow> string list \<Rightarrow> ip_permission list \<Rightarrow> bool io" where
  "update_body ec2 sg_id allowed perms =
     then_io (ensure_ssh ec2 sg_id perms) (sync_http ec2 sg_id allowed perms)"

definition planned_ssh :: "string \<Rightarrow> ip_permission list \<Rightarrow> event list" where
  "planned_ssh sg_id perms =
     (if scan_ssh False perms then [] else [Authorize (ssh_request sg_id)])"

definition planned_http :: "string \<Rightarrow> string set \<Rightarrow> string set \<Rightarrow> event list" where
  "planned_http sg_id current target =
     (if current - target = {} then [] else [Revoke (http_request sg_id (current - target))])
     @ (if target - current = {} then [] else [Authorize (http_request sg_id (target - current))])"

definition planned :: "string \<Rightarrow> string list \<Rightarrow> ip_permission list \<Rightarrow> event list" where
  "planned sg_id allowed perms =
     planned_ssh sg_id perms
     @ (case collect_http {} perms of
          Inl e \<Rightarrow> []
        | Inr current \<Rightarrow> planned_http sg_id current (set allowed))"

definition planned_for :: "ec2_client \<Rightarrow> string \<Rightarrow> string list \<Rightarrow> event list" where
  "planned_for ec2 sg_id allowed =
     (case describe_security_groups ec2 (ByGroupIds [sg_id]) of
        Inl e \<Rightarrow> []
      | Inr [] \<Rightarrow> []
      | Inr (g # gs) \<Rightarrow> planned sg_id allowed (IpPermissions g))"

subsection \<open>The order of the operations of a run\<close>

text \<open>
  The stage an operation belongs to: resolving the desired state (0), finding the group
  (1), reading the rules of the group (2), opening SSH (3), revoking on the HTTP port (4),
  authorizing on the HTTP port (5), reading the YAML file (6), writing it (7), git (8).
\<close>

fun phase :: "event \<Rightarrow> nat" where
  "phase (Http_Get _) = 0"
| "phase (Describe (ByFilters _)) = 1"
| "phase (Describe (ByGroupIds _)) = 2"
| "phase (Authorize r) = (if on_ports SSH_PORT r then 3 else 5)"
| "phase (Revoke _) = 4"
| "phase (Path_Exists _) = 6"
| "phase (Read_Yaml _) = 6"
| "phase (Write_Yaml _ _) = 7"
| "phase (Subprocess _) = 8"
| "phase (Print _) = 0"

definition in_phases :: "nat \<Rightarrow> nat \<Rightarrow> event list \<Rightarrow> bool" where
  "in_phases lo hi t =
     (sorted (map phase (io_events t)) \<and> list_all (\<lambda>e. lo \<le> phase e \<and> phase e \<le> hi) (io_events t))"

fun touches_config :: "event \<Rightarrow> bool" where
  "touches_config (Path_Exists _) = True"
| "touches_config (Read_Yaml _) = True"
| "touches_config (Write_Yaml _ _) = True"
| "touches_config _ = False"

fun is_rules_read :: "event \<Rightarrow> bool" where
  "is_rules_read (Describe (ByGroupIds _)) = True"
| "is_rules_read _ = False"

fun is_yaml_read :: "event \<Rightarrow> bool" where
  "is_yaml_read (Read_Yaml _) = True"
| "is_yaml_read _ = False"

text \<open>The position of the first operation of a kind (the length of the list when none is).\<close>

definition first_index :: "(event \<Rightarrow> bool) \<Rightarrow> event list \<Rightarrow> nat" where
  "first_index P t = length (takeWhile (\<lambda>e. \<not> P e) t)"

text \<open>The YAML file is read before the rules of the group are.\<close>

definition config_read_first :: "event list \<Rightarrow> bool" where
  "config_read_first t = (first_index is_yaml_read t < first_index is_rules_read t)"

text \<open>
  A run gets as far as calling \<^verbatim>\<open>update_security_group\<close>, and the call returns.
\<close>

definition reconciled :: "world \<Rightarrow> bool" where
  "reconciled w =
     (case snd (get_current_ip w) of
        Inl a \<Rightarrow> False
      | Inr home_ip \<Rightarrow>
          (case snd (get_cloudflare_ips w) of
             Inl a \<Rightarrow> False
           | Inr cf_ips \<Rightarrow>
               (case snd (get_security_group_id (client w (detect_region w))) of
                  Inl a \<Rightarrow> False
                | Inr sg_id \<Rightarrow>
                    snd (update_security_group (client w (detect_region w)) sg_id
                           (target_cidrs home_ip cf_ips)) = Inr True)))"

text \<open>
  \<^verbatim>\<open>main\<close> up to the end of step 6, that is, without the git step and the closing
  lines.
\<close>

definition main_to_step_6 :: "world \<Rightarrow> unit io" where
  "main_to_step_6 w =
     then_io (print Rule_Line) (then_io (print Title) (then_io (print Rule_Line)
       (bind_io (get_current_ip w) (\<lambda>home_ip.
        then_io (print (Home_IP home_ip))
          (bind_io (get_cloudflare_ips w) (\<lambda>cf_ips.
           then_io (print (Fetched_Ranges (length cf_ips)))
             (let target_http_cidrs = target_cidrs home_ip cf_ips;
                  region = detect_region w;
                  ec2 = client w region
              in
                then_io (print (Detected_Region region))
                  (bind_io (get_security_group_id ec2) (\<lambda>sg_id.
                     then_io (print (Found_Group sg_id))
                       (sync_and_save w ec2 sg_id target_http_cidrs))))))))))"

text \<open>
  What \<^verbatim>\<open>main\<close> does before it calls \<^verbatim>\<open>update_security_group\<close>, when
  the two addresses and the group are found.
\<close>

definition preamble :: "world \<Rightarrow> string \<Rightarrow> string list \<Rightarrow> string \<Rightarrow> event list" where
  "preamble w home_ip cf_ips sg_id =
     [Print Rule_Line, Print Title, Print Rule_Line] @ fst (get_current_ip w)
     @ [Print (Home_IP home_ip)] @ fst (get_cloudflare_ips w)
     @ [Print (Fetched_Ranges (length cf_ips)), Print (Detected_Region (detect_region w))]
     @ fst (get_security_group_id (client w (detect_region w)))
     @ [Print (Found_Group sg_id)]"

text \<open>Every git command that fails exits with a status other than 0.\<close>

definition git_fails_by_status :: "world \<Rightarrow> bool" where
  "git_fails_by_status w = (\<forall>args e. run w args = Inl e \<longrightarrow> e = CalledProcessError)"

text \<open>The permissions with their protocols replaced.\<close>

definition with_protocols :: "(ip_permission \<Rightarrow> string option) \<Rightarrow> ip_permission list \<Rightarrow> ip_permission list" where
  "with_protocols f perms = map (\<lambda>p. p\<lparr>IpProtocol := f p\<rparr>) perms"

subsection \<open>Concrete inputs\<close>

definition perm_on :: "string \<Rightarrow> int \<Rightarrow> string list \<Rightarrow> ip_permission" where
  "perm_on proto port cidrs =
     \<lparr>IpProtocol = Some proto, FromPort = Some port, ToPort = Some port,
      IpRanges = Some (map (\<lambda>c. \<lparr>CidrIp = Some c\<rparr>) cidrs)\<rparr>"

text \<open>A client whose group has the given permissions, and whose calls all succeed.\<close>

definition ec2_with :: "ip_permission list \<Rightarrow> ec2_client" where
  "ec2_with perms =
     \<lparr>describe_security_groups = (\<lambda>args. Inr [\<lparr>GroupId = ''sg-1'', IpPermissions = perms\<rparr>]),
      authorize_security_group_ingress = (\<lambda>r. None),
      revoke_security_group_ingress = (\<lambda>r. None)\<rparr>"

text \<open>A client that finds the group by its name and then fails to read its rules.\<close>

definition ec2_unreadable :: ec2_client where
  "ec2_unreadable =
     \<lparr>describe_security_groups =
        (\<lambda>args. case args of
                  ByGroupIds ids \<Rightarrow> Inl ClientError
                | ByFilters fs \<Rightarrow> Inr [\<lparr>GroupId = ''sg-1'', IpPermissions = []\<rparr>]),
      authorize_security_group_ingress = (\<lambda>r. None),
      revoke_security_group_ingress = (\<lambda>r. None)\<rparr>"

definition perms_stale :: "ip_permission list" where
  "perms_stale = [perm_on ''tcp'' 80 [''1.1.1.1/32'', ''2.2.2.2/32'']]"

definition perms_synced :: "ip_permission list" where
  "perms_synced =
     [perm_on ''tcp'' 22 [''0.0.0.0/0''], perm_on ''tcp'' 80 [''2.2.2.2/32'', ''3.3.3.3/32'']]"

text \<open>A permission on the HTTP port with a range that has no \<^verbatim>\<open>CidrIp\<close>.\<close>

definition perms_malformed :: "ip_permission list" where
  "perms_malformed =
     [\<lparr>IpProtocol = Some ''tcp'', FromPort = Some 80, ToPort = Some 80,
       IpRanges = Some [\<lparr>CidrIp = None\<rparr>]\<rparr>]"

definition perms_udp :: "ip_permission list" where
  "perms_udp = [perm_on ''udp'' 22 [''0.0.0.0/0''], perm_on ''udp'' 80 [''9.9.9.9/32'']]"

text \<open>
  A world where the caller's address is 3.3.3.3, the CDN publishes 2.2.2.2/32, the YAML
  file exists, and git answers as given.
\<close>

definition world_with :: "ec2_client \<Rightarrow> (string list \<Rightarrow> exn + string) \<Rightarrow> world" where
  "world_with ec2 git =
     \<lparr>requests_get =
        (\<lambda>url. if url = CHECKIP_URL
                then Inr \<lparr>status_code = 200, text_body = ''3.3.3.3\<newline>''\<rparr>
                else Inr \<lparr>status_code = 200, text_body = ''2.2.2.2/32\<newline>''\<rparr>),
      region_name = None,
      client = (\<lambda>region. ec2),
      path_exists = (\<lambda>path. True),
      yaml_safe_load = (\<lambda>path. Inr (Some \<lparr>rules = Some [(''http'', [])], other_keys = []\<rparr>)),
      yaml_dump = (\<lambda>path cfg. None),
      run = git\<rparr>"

definition git_clean :: "string list \<Rightarrow> exn + string" where
  "git_clean args = Inr []"

definition git_push_fails :: "string list \<Rightarrow> exn + string" where
  "git_push_fails args = (if args = git_push then Inl CalledProcessError else Inr ''M'')"

text \<open>git where the push cannot be started: the call raises, and not by an exit status.\<close>

definition git_push_unspawnable :: "string list \<Rightarrow> exn + string" where
  "git_push_unspawnable args = (if args = git_push then Inl OtherError else Inr ''M'')"

section \<open>Properties\<close>

subsection \<open>Sequencing\<close>

lemmas io_defs = return_io_def emit_def raise_io_def sys_exit_def bind_io_def then_io_def
  of_result_def of_raising_def try_except_def print_def

lemma io_events_simps [simp]:
  "io_events [] = []"
  "io_events (Print m # t) = io_events t"
  "io_events (Authorize r # t) = Authorize r # io_events t"
  "io_events (Revoke r # t) = Revoke r # io_events t"
  "io_events (Describe a # t) = Describe a # io_events t"
  "io_events (Http_Get u # t) = Http_Get u # io_events t"
  "io_events (Path_Exists f # t) = Path_Exists f # io_events t"
  "io_events (Read_Yaml f # t) = Read_Yaml f # io_events t"
  "io_events (Write_Yaml f c # t) = Write_Yaml f c # io_events t"
  "io_events (Subprocess args # t) = Subprocess args # io_events t"
  "io_events (t @ t') = io_events t @ io_events t'"
  by (simp_all add: io_events_def)

lemma mutations_simps [simp]:
  "mutations [] = []"
  "mutations (Authorize r # t) = Authorize r # mutations t"
  "mutations (Revoke r # t) = Revoke r # mutations t"
  "mutations (Print m # t) = mutations t"
  "mutations (Describe a # t) = mutations t"
  "mutations (Http_Get u # t) = mutations t"
  "mutations (Path_Exists f # t) = mutations t"
  "mutations (Read_Yaml f # t) = mutations t"
  "mutations (Write_Yaml f c # t) = mutations t"
  "mutations (Subprocess args # t) = mutations t"
  "mutations (t @ t') = mutations t @ mutations t'"
  by (simp_all add: mutations_def)

lemma mutations_io_events: "mutations (io_events t) = mutations t"
proof (induction t)
  case Nil
  show ?case by simp
next
  case (Cons e t)
  then show ?case by (cases e) simp_all
qed

lemma ports_differ [simp]: "SSH_PORT \<noteq> HTTP_PORT" "HTTP_PORT \<noteq> SSH_PORT"
  by (simp_all add: SSH_PORT_def HTTP_PORT_def)

lemma on_ports_requests [simp]:
  "on_ports SSH_PORT (ssh_request sg_id)"
  "on_ports HTTP_PORT (http_request sg_id cidrs)"
  "\<not> on_ports HTTP_PORT (ssh_request sg_id)"
  "\<not> on_ports SSH_PORT (http_request sg_id cidrs)"
  by (simp_all add: on_ports_def ssh_request_def http_request_def)

subsection \<open>The scans of the current permissions\<close>

lemma scan_ranges_iff:
  "scan_ranges b rs = (b \<or> Some ''0.0.0.0/0'' \<in> CidrIp ` set rs)"
  by (induction rs arbitrary: b) auto

lemma scan_ssh_iff:
  "scan_ssh b perms = (b \<or> ssh_is_open perms)"
  unfolding ssh_is_open_def
  by (induction perms arbitrary: b) (auto simp: scan_ranges_iff)

lemma add_ranges_Inr:
  "add_ranges s rs = Inr c \<Longrightarrow> c = s \<union> set (List.map_filter CidrIp rs)"
  by (induction rs arbitrary: s c) (auto simp: List.map_filter_simps split: option.splits)

lemma collect_http_Inr:
  "collect_http s perms = Inr c \<Longrightarrow> c = s \<union> current_http_cidrs perms"
proof (induction perms arbitrary: s)
  case Nil
  then show ?case by (simp add: current_http_cidrs_def List.map_filter_simps)
next
  case (Cons p ps)
  show ?case
  proof (cases "on_port HTTP_PORT p")
    case True
    with Cons.prems obtain s' where a: "add_ranges s (get_IpRanges p) = Inr s'"
      and c: "collect_http s' ps = Inr c"
      by (auto split: sum.splits)
    have "current_http_cidrs (p # ps)
            = set (List.map_filter CidrIp (get_IpRanges p)) \<union> current_http_cidrs ps"
      using True by (simp add: current_http_cidrs_def List.map_filter_def)
    with add_ranges_Inr [OF a] Cons.IH [OF c] show ?thesis by auto
  next
    case False
    with Cons.prems have "collect_http s ps = Inr c" by simp
    from Cons.IH [OF this] False show ?thesis by (simp add: current_http_cidrs_def)
  qed
qed

lemma current_http_no_rule:
  "\<not> (\<exists>p \<in> set perms. on_port HTTP_PORT p) \<Longrightarrow> current_http_cidrs perms = {}"
proof -
  assume "\<not> (\<exists>p \<in> set perms. on_port HTTP_PORT p)"
  then have "filter (on_port HTTP_PORT) perms = []" by (simp add: filter_empty_conv)
  then show ?thesis by (simp add: current_http_cidrs_def List.map_filter_simps)
qed

subsection \<open>update\_security\_group, step by step\<close>

lemma ensure_ssh_eq:
  "ensure_ssh ec2 sg_id perms =
     (ssh_part sg_id perms,
      if scan_ssh False perms then Inr ()
      else (case authorize_security_group_ingress ec2 (ssh_request sg_id) of
              Some e \<Rightarrow> Inl (Raised e) | None \<Rightarrow> Inr ()))"
  by (simp add: ensure_ssh_def ssh_part_def authorize_def io_defs split: option.splits)

lemma sync_http_eq:
  "sync_http ec2 sg_id allowed perms =
     (case collect_http {} perms of
        Inl e \<Rightarrow> ([], Inl (Raised e))
      | Inr current \<Rightarrow>
          (case (if current - set allowed = {} then None
                 else revoke_security_group_ingress ec2 (http_request sg_id (current - set allowed))) of
             Some e \<Rightarrow> (revoke_part sg_id (current - set allowed), Inl (Raised e))
           | None \<Rightarrow>
               (revoke_part sg_id (current - set allowed)
                  @ authorize_part sg_id (set allowed - current),
                if set allowed - current = {} then Inr True
                else (case authorize_security_group_ingress ec2
                             (http_request sg_id (set allowed - current)) of
                        Some e \<Rightarrow> Inl (Raised e) | None \<Rightarrow> Inr True))))"
  by (simp add: sync_http_def revoke_part_def authorize_part_def authorize_def revoke_def
      io_defs Let_def split: sum.splits option.splits)

lemma io_events_ssh_part [simp]: "io_events (ssh_part sg_id perms) = planned_ssh sg_id perms"
  by (simp add: ssh_part_def planned_ssh_def)

lemma io_events_http_parts [simp]:
  "io_events (revoke_part sg_id (current - target)) @ io_events (authorize_part sg_id (target - current))
     = planned_http sg_id current target"
  by (simp add: revoke_part_def authorize_part_def planned_http_def)

lemma io_events_revoke_part_prefix:
  "prefix (io_events (revoke_part sg_id (current - target))) (planned_http sg_id current target)"
  by (simp add: revoke_part_def planned_http_def)

lemma update_read_failure:
  assumes "describe_security_groups ec2 (ByGroupIds [sg_id]) = Inl e"
  shows "update_security_group ec2 sg_id allowed =
           ([Describe (ByGroupIds [sg_id]), Print (Error_Updating e)], Inl (SysExit 1))"
  using assms by (simp add: update_security_group_def describe_def io_defs)

lemma update_no_group:
  assumes "describe_security_groups ec2 (ByGroupIds [sg_id]) = Inr []"
  shows "update_security_group ec2 sg_id allowed =
           ([Describe (ByGroupIds [sg_id]), Print (Error_Updating IndexError)], Inl (SysExit 1))"
  using assms by (simp add: update_security_group_def describe_def first_item_def io_defs)

lemma update_group:
  assumes "describe_security_groups ec2 (ByGroupIds [sg_id]) = Inr (g # gs)"
  shows "update_security_group ec2 sg_id allowed =
           (case snd (update_body ec2 sg_id allowed (IpPermissions g)) of
              Inl (Raised e) \<Rightarrow>
                (Describe (ByGroupIds [sg_id]) # fst (update_body ec2 sg_id allowed (IpPermissions g))
                   @ [Print (Error_Updating e)], Inl (SysExit 1))
            | r \<Rightarrow> (Describe (ByGroupIds [sg_id]) # fst (update_body ec2 sg_id allowed (IpPermissions g)), r))"
  using assms
  by (simp add: update_security_group_def update_body_def describe_def first_item_def io_defs
      Let_def split: sum.splits abort.splits)

lemma io_events_update_group:
  assumes "describe_security_groups ec2 (ByGroupIds [sg_id]) = Inr (g # gs)"
  shows "io_events (fst (update_security_group ec2 sg_id allowed))
           = Describe (ByGroupIds [sg_id]) # io_events (fst (update_body ec2 sg_id allowed (IpPermissions g)))"
  by (simp add: update_group [OF assms] split: sum.splits abort.splits)

lemma snd_update_group:
  assumes "describe_security_groups ec2 (ByGroupIds [sg_id]) = Inr (g # gs)"
    and "snd (update_security_group ec2 sg_id allowed) = Inr v"
  shows "snd (update_body ec2 sg_id allowed (IpPermissions g)) = Inr v"
  using assms(2) by (simp add: update_group [OF assms(1)] split: sum.splits abort.splits)

lemma body_prefix:
  "prefix (io_events (fst (update_body ec2 sg_id allowed perms))) (planned sg_id allowed perms)"
proof (cases "snd (ensure_ssh ec2 sg_id perms)")
  case (Inl a)
  then show ?thesis
    by (simp add: update_body_def then_io_def bind_io_def planned_def ensure_ssh_eq)
next
  case (Inr u)
  show ?thesis
  proof (cases "collect_http {} perms")
    case (Inl e)
    with Inr show ?thesis
      by (simp add: update_body_def then_io_def bind_io_def planned_def ensure_ssh_eq sync_http_eq)
  next
    case cur: (Inr current)
    with Inr show ?thesis
      using io_events_revoke_part_prefix [of sg_id current "set allowed"]
      by (simp add: update_body_def then_io_def bind_io_def planned_def ensure_ssh_eq sync_http_eq
          split: option.splits)
  qed
qed

lemma body_success:
  assumes "snd (update_body ec2 sg_id allowed perms) = Inr v"
  shows "v = True"
    and "\<exists>current. collect_http {} perms = Inr current"
    and "io_events (fst (update_body ec2 sg_id allowed perms)) = planned sg_id allowed perms"
proof -
  from assms have s: "snd (ensure_ssh ec2 sg_id perms) = Inr ()"
    by (simp add: update_body_def then_io_def bind_io_def split: sum.splits)
  from assms s obtain current where c: "collect_http {} perms = Inr current"
    by (cases "collect_http {} perms")
       (simp_all add: update_body_def then_io_def bind_io_def sync_http_eq)
  then show "\<exists>current. collect_http {} perms = Inr current" by blast
  from assms s c show "v = True"
    by (simp add: update_body_def then_io_def bind_io_def sync_http_eq
        split: option.splits if_splits)
  from assms s c show "io_events (fst (update_body ec2 sg_id allowed perms)) = planned sg_id allowed perms"
    by (simp add: update_body_def then_io_def bind_io_def planned_def ensure_ssh_eq sync_http_eq
        split: option.splits if_splits)
qed

text \<open>
  Whatever the client answers, the operations of \<^verbatim>\<open>update_security_group\<close> are
  the read followed by the first calls of the plan.
\<close>

lemma update_io_events:
  "\<exists>ms. io_events (fst (update_security_group ec2 sg_id allowed)) = Describe (ByGroupIds [sg_id]) # ms
        \<and> prefix ms (planned_for ec2 sg_id allowed)"
proof (cases "describe_security_groups ec2 (ByGroupIds [sg_id])")
  case (Inl e)
  then show ?thesis by (simp add: update_read_failure planned_for_def)
next
  case (Inr groups)
  show ?thesis
  proof (cases groups)
    case Nil
    with Inr show ?thesis by (simp add: update_no_group planned_for_def)
  next
    case (Cons g gs)
    with Inr have d: "describe_security_groups ec2 (ByGroupIds [sg_id]) = Inr (g # gs)" by simp
    then show ?thesis
      using body_prefix [of ec2 sg_id allowed "IpPermissions g"]
      by (simp add: io_events_update_group [OF d] planned_for_def)
  qed
qed

lemma update_success:
  assumes "snd (update_security_group ec2 sg_id allowed) = Inr v"
  shows "\<exists>g gs current.
           describe_security_groups ec2 (ByGroupIds [sg_id]) = Inr (g # gs)
           \<and> collect_http {} (IpPermissions g) = Inr current
           \<and> v = True
           \<and> io_events (fst (update_security_group ec2 sg_id allowed))
               = Describe (ByGroupIds [sg_id]) # planned sg_id allowed (IpPermissions g)"
proof (cases "describe_security_groups ec2 (ByGroupIds [sg_id])")
  case (Inl e)
  with assms show ?thesis by (simp add: update_read_failure)
next
  case (Inr groups)
  show ?thesis
  proof (cases groups)
    case Nil
    with Inr assms show ?thesis by (simp add: update_no_group)
  next
    case (Cons g gs)
    with Inr have d: "describe_security_groups ec2 (ByGroupIds [sg_id]) = Inr (g # gs)" by simp
    note b = body_success [OF snd_update_group [OF d assms]]
    from b(2) obtain current where "collect_http {} (IpPermissions g) = Inr current" by blast
    with d b(1) b(3) show ?thesis by (simp add: io_events_update_group [OF d])
  qed
qed

subsection \<open>Reading the operations of update\_security\_group\<close>

lemma filter_io_events:
  assumes "\<And>m. \<not> P (Print m)"
  shows "filter P (io_events t) = filter P t"
proof (induction t)
  case Nil
  show ?case by simp
next
  case (Cons e t)
  then show ?case using assms by (cases e) simp_all
qed

lemma prefix_filter_length:
  assumes "prefix ms pl"
  shows "length (filter P ms) \<le> length (filter P pl)"
proof -
  from assms obtain rest where "pl = ms @ rest" by (auto simp: prefix_def)
  then show ?thesis by simp
qed

lemma update_filter_le:
  assumes "\<And>m. \<not> P (Print m)" and "\<And>a. \<not> P (Describe a)"
  shows "length (filter P (fst (update_security_group ec2 sg_id allowed)))
           \<le> length (filter P (planned_for ec2 sg_id allowed))"
proof -
  obtain ms where t: "io_events (fst (update_security_group ec2 sg_id allowed))
                        = Describe (ByGroupIds [sg_id]) # ms"
    and p: "prefix ms (planned_for ec2 sg_id allowed)"
    using update_io_events by blast
  have "filter P (fst (update_security_group ec2 sg_id allowed)) = filter P ms"
    using filter_io_events [of P, OF assms(1)] t assms(2) by (metis filter.simps(2))
  with prefix_filter_length [OF p] show ?thesis by simp
qed

lemma update_events_cases:
  assumes "e \<in> set (fst (update_security_group ec2 sg_id allowed))"
  shows "(\<exists>m. e = Print m) \<or> e = Describe (ByGroupIds [sg_id])
           \<or> e \<in> set (planned_for ec2 sg_id allowed)"
proof (cases e)
  case (Print m)
  then show ?thesis by simp
next
  case other: (Http_Get u)
  obtain ms where t: "io_events (fst (update_security_group ec2 sg_id allowed))
                        = Describe (ByGroupIds [sg_id]) # ms"
    and p: "prefix ms (planned_for ec2 sg_id allowed)"
    using update_io_events by blast
  from assms other have "e \<in> set (io_events (fst (update_security_group ec2 sg_id allowed)))"
    by (simp add: io_events_def)
  with t p show ?thesis using set_mono_prefix by fastforce
next
  case other: (Describe a)
  obtain ms where t: "io_events (fst (update_security_group ec2 sg_id allowed))
                        = Describe (ByGroupIds [sg_id]) # ms"
    and p: "prefix ms (planned_for ec2 sg_id allowed)"
    using update_io_events by blast
  from assms other have "e \<in> set (io_events (fst (update_security_group ec2 sg_id allowed)))"
    by (simp add: io_events_def)
  with t p show ?thesis using set_mono_prefix by fastforce
next
  case other: (Authorize r)
  obtain ms where t: "io_events (fst (update_security_group ec2 sg_id allowed))
                        = Describe (ByGroupIds [sg_id]) # ms"
    and p: "prefix ms (planned_for ec2 sg_id allowed)"
    using update_io_events by blast
  from assms other have "e \<in> set (io_events (fst (update_security_group ec2 sg_id allowed)))"
    by (simp add: io_events_def)
  with t p show ?thesis using set_mono_prefix by fastforce
next
  case other: (Revoke r)
  obtain ms where t: "io_events (fst (update_security_group ec2 sg_id allowed))
                        = Describe (ByGroupIds [sg_id]) # ms"
    and p: "prefix ms (planned_for ec2 sg_id allowed)"
    using update_io_events by blast
  from assms other have "e \<in> set (io_events (fst (update_security_group ec2 sg_id allowed)))"
    by (simp add: io_events_def)
  with t p show ?thesis using set_mono_prefix by fastforce
next
  case other: (Path_Exists f)
  obtain ms where t: "io_events (fst (update_security_group ec2 sg_id allowed))
                        = Describe (ByGroupIds [sg_id]) # ms"
    and p: "prefix ms (planned_for ec2 sg_id allowed)"
    using update_io_events by blast
  from assms other have "e \<in> set (io_events (fst (update_security_group ec2 sg_id allowed)))"
    by (simp add: io_events_def)
  with t p show ?thesis using set_mono_prefix by fastforce
next
  case other: (Read_Yaml f)
  obtain ms where t: "io_events (fst (update_security_group ec2 sg_id allowed))
                        = Describe (ByGroupIds [sg_id]) # ms"
    and p: "prefix ms (planned_for ec2 sg_id allowed)"
    using update_io_events by blast
  from assms other have "e \<in> set (io_events (fst (update_security_group ec2 sg_id allowed)))"
    by (simp add: io_events_def)
  with t p show ?thesis using set_mono_prefix by fastforce
next
  case other: (Write_Yaml f c)
  obtain ms where t: "io_events (fst (update_security_group ec2 sg_id allowed))
                        = Describe (ByGroupIds [sg_id]) # ms"
    and p: "prefix ms (planned_for ec2 sg_id allowed)"
    using update_io_events by blast
  from assms other have "e \<in> set (io_events (fst (update_security_group ec2 sg_id allowed)))"
    by (simp add: io_events_def)
  with t p show ?thesis using set_mono_prefix by fastforce
next
  case other: (Subprocess args)
  obtain ms where t: "io_events (fst (update_security_group ec2 sg_id allowed))
                        = Describe (ByGroupIds [sg_id]) # ms"
    and p: "prefix ms (planned_for ec2 sg_id allowed)"
    using update_io_events by blast
  from assms other have "e \<in> set (io_events (fst (update_security_group ec2 sg_id allowed)))"
    by (simp add: io_events_def)
  with t p show ?thesis using set_mono_prefix by fastforce
qed

lemma planned_for_cases:
  assumes "e \<in> set (planned_for ec2 sg_id allowed)"
  shows "e = Authorize (ssh_request sg_id)
           \<or> (\<exists>cidrs. e = Revoke (http_request sg_id cidrs))
           \<or> (\<exists>cidrs. e = Authorize (http_request sg_id cidrs))"
  using assms
  by (auto simp: planned_for_def planned_def planned_ssh_def planned_http_def
      split: sum.splits list.splits if_splits)

lemma planned_for_counts:
  "length (planned_for ec2 sg_id allowed) \<le> 3"
  "length (filter is_ssh_add (planned_for ec2 sg_id allowed)) \<le> 1"
  "length (filter is_http_revoke (planned_for ec2 sg_id allowed)) \<le> 1"
  "length (filter is_http_authorize (planned_for ec2 sg_id allowed)) \<le> 1"
  by (simp_all add: planned_for_def planned_def planned_ssh_def planned_http_def
      split: sum.splits list.splits)

lemma mutations_planned_for [simp]:
  "filter is_mutation (planned_for ec2 sg_id allowed) = planned_for ec2 sg_id allowed"
  by (simp add: planned_for_def planned_def planned_ssh_def planned_http_def
      split: sum.splits list.splits)

lemma http_revoked_simps [simp]:
  "http_revoked [] = {}"
  "http_revoked (e # t) = revoked_by e \<union> http_revoked t"
  "http_revoked (t @ t') = http_revoked t \<union> http_revoked t'"
  by (simp_all add: http_revoked_def)

lemma http_authorized_simps [simp]:
  "http_authorized [] = {}"
  "http_authorized (e # t) = authorized_by e \<union> http_authorized t"
  "http_authorized (t @ t') = http_authorized t \<union> http_authorized t'"
  by (simp_all add: http_authorized_def)

lemma http_revoked_io_events: "http_revoked (io_events t) = http_revoked t"
proof (induction t)
  case Nil
  show ?case by simp
next
  case (Cons e t)
  then show ?case by (cases e) simp_all
qed

lemma http_authorized_io_events: "http_authorized (io_events t) = http_authorized t"
proof (induction t)
  case Nil
  show ?case by simp
next
  case (Cons e t)
  then show ?case by (cases e) simp_all
qed

lemma apply_events_simps [simp]:
  "apply_events port [] s = s"
  "apply_events port (e # t) s = apply_events port t (apply_event port e s)"
  "apply_events port (t @ t') s = apply_events port t' (apply_events port t s)"
  by (simp_all add: apply_events_def)

lemma apply_events_io_events: "apply_events port (io_events t) s = apply_events port t s"
proof (induction t arbitrary: s)
  case Nil
  show ?case by simp
next
  case (Cons e t)
  then show ?case by (cases e) simp_all
qed

lemma planned_sets:
  "http_revoked (planned sg_id allowed perms)
     = (case collect_http {} perms of Inl e \<Rightarrow> {} | Inr current \<Rightarrow> current - set allowed)"
  "http_authorized (planned sg_id allowed perms)
     = (case collect_http {} perms of Inl e \<Rightarrow> {} | Inr current \<Rightarrow> set allowed - current)"
  by (simp_all add: planned_def planned_ssh_def planned_http_def http_request_def
      ssh_request_def on_ports_def split: sum.splits)

lemma apply_planned_http:
  "apply_events HTTP_PORT (planned_http sg_id current target) current = target"
  by (auto simp: planned_http_def http_request_def on_ports_def)

lemma apply_planned_ssh:
  "apply_events HTTP_PORT (planned_ssh sg_id perms) s = s"
  by (simp add: planned_ssh_def)

lemma apply_no_ssh_revoke:
  "list_all (\<lambda>e. \<not> is_ssh_revoke e) t \<Longrightarrow> s \<subseteq> apply_events SSH_PORT t s"
proof (induction t arbitrary: s)
  case Nil
  show ?case by simp
next
  case (Cons e t)
  then have rest: "apply_event SSH_PORT e s \<subseteq> apply_events SSH_PORT t (apply_event SSH_PORT e s)"
    by simp
  from Cons.prems have "s \<subseteq> apply_event SSH_PORT e s"
    by (cases e) (auto simp: on_ports_def)
  with rest show ?case by auto
qed

text \<open>The result of a run against a client whose calls all succeed.\<close>

lemma update_ec2_with:
  "snd (update_security_group (ec2_with perms) sg_id allowed)
     = (case collect_http {} perms of Inl e \<Rightarrow> Inl (SysExit 1) | Inr current \<Rightarrow> Inr True)"
proof -
  have d: "describe_security_groups (ec2_with perms) (ByGroupIds [sg_id])
             = Inr (\<lparr>GroupId = ''sg-1'', IpPermissions = perms\<rparr> # [])"
    by (simp add: ec2_with_def)
  have a: "authorize_security_group_ingress (ec2_with perms) r = None" for r
    by (simp add: ec2_with_def)
  have r: "revoke_security_group_ingress (ec2_with perms) r = None" for r
    by (simp add: ec2_with_def)
  show ?thesis
    unfolding update_group [OF d]
    by (simp add: update_body_def then_io_def bind_io_def ensure_ssh_eq sync_http_eq a r
        split: sum.splits)
qed

lemma io_events_ec2_with:
  assumes "collect_http {} perms = Inr current"
  shows "io_events (fst (update_security_group (ec2_with perms) sg_id allowed))
           = Describe (ByGroupIds [sg_id]) # planned sg_id allowed perms"
proof -
  have "snd (update_security_group (ec2_with perms) sg_id allowed) = Inr True"
    using assms by (simp add: update_ec2_with)
  from update_success [OF this] show ?thesis by (auto simp: ec2_with_def)
qed

lemma collect_perms_stale:
  "collect_http {} perms_stale = Inr {''1.1.1.1/32'', ''2.2.2.2/32''}"
  by (simp add: perms_stale_def perm_on_def on_port_def get_IpRanges_def HTTP_PORT_def
      insert_commute)

lemma collect_perms_synced:
  "collect_http {} perms_synced = Inr {''2.2.2.2/32'', ''3.3.3.3/32''}"
  by (simp add: perms_synced_def perm_on_def on_port_def get_IpRanges_def HTTP_PORT_def
      insert_commute)

lemma collect_perms_udp:
  "collect_http {} perms_udp = Inr {''9.9.9.9/32''}"
  by (simp add: perms_udp_def perm_on_def on_port_def get_IpRanges_def HTTP_PORT_def)

lemma scan_perms:
  "\<not> scan_ssh False perms_stale" "scan_ssh False perms_synced" "scan_ssh False perms_udp"
  by (simp_all add: perms_stale_def perms_synced_def perms_udp_def perm_on_def on_port_def
      get_IpRanges_def SSH_PORT_def)

section \<open>The claims about update\_security\_group\<close>

text \<open>
  C1. When the rules of the group are read and the run of
  \<^verbatim>\<open>update_security_group\<close> returns, the CIDRs it revokes on the HTTP port are
  exactly the current ones that are not desired, and the CIDRs it authorizes there are
  exactly the desired ones that are not current; the current set is empty when no
  permission is on the HTTP port.
\<close>

theorem C1_diff:
  assumes "describe_security_groups ec2 (ByGroupIds [sg_id]) = Inr (g # gs)"
    and "snd (update_security_group ec2 sg_id desired) = Inr v"
  shows "http_revoked (fst (update_security_group ec2 sg_id desired))
           = current_http_cidrs (IpPermissions g) - set desired
         \<and> http_authorized (fst (update_security_group ec2 sg_id desired))
           = set desired - current_http_cidrs (IpPermissions g)
         \<and> (\<not> (\<exists>p \<in> set (IpPermissions g). on_port HTTP_PORT p)
              \<longrightarrow> current_http_cidrs (IpPermissions g) = {})"
proof -
  from update_success [OF assms(2)] assms(1) obtain current
    where c: "collect_http {} (IpPermissions g) = Inr current"
      and t: "io_events (fst (update_security_group ec2 sg_id desired))
                = Describe (ByGroupIds [sg_id]) # planned sg_id desired (IpPermissions g)"
    by auto
  from collect_http_Inr [OF c] have cur: "current = current_http_cidrs (IpPermissions g)"
    by simp
  have "http_revoked (fst (update_security_group ec2 sg_id desired))
          = http_revoked (io_events (fst (update_security_group ec2 sg_id desired)))"
    by (simp only: http_revoked_io_events)
  then have r: "http_revoked (fst (update_security_group ec2 sg_id desired))
                  = current_http_cidrs (IpPermissions g) - set desired"
    using c cur by (simp add: t planned_sets)
  have "http_authorized (fst (update_security_group ec2 sg_id desired))
          = http_authorized (io_events (fst (update_security_group ec2 sg_id desired)))"
    by (simp only: http_authorized_io_events)
  then have a: "http_authorized (fst (update_security_group ec2 sg_id desired))
                  = set desired - current_http_cidrs (IpPermissions g)"
    using c cur by (simp add: t planned_sets)
  from r a current_http_no_rule show ?thesis by blast
qed

theorem C1_diff_witness:
  "http_revoked (fst (update_security_group (ec2_with perms_stale) ''sg-1''
       [''2.2.2.2/32'', ''3.3.3.3/32''])) = {''1.1.1.1/32''}
   \<and> http_authorized (fst (update_security_group (ec2_with perms_stale) ''sg-1''
       [''2.2.2.2/32'', ''3.3.3.3/32''])) = {''3.3.3.3/32''}"
proof -
  have d: "describe_security_groups (ec2_with perms_stale) (ByGroupIds [''sg-1''])
             = Inr (\<lparr>GroupId = ''sg-1'', IpPermissions = perms_stale\<rparr> # [])"
    by (simp add: ec2_with_def)
  have s: "snd (update_security_group (ec2_with perms_stale) ''sg-1''
                  [''2.2.2.2/32'', ''3.3.3.3/32'']) = Inr True"
    by (simp add: update_ec2_with collect_perms_stale)
  have c: "current_http_cidrs perms_stale = {''1.1.1.1/32'', ''2.2.2.2/32''}"
    using collect_http_Inr [OF collect_perms_stale] by simp
  from C1_diff [OF d s] show ?thesis by (simp add: c insert_Diff_if)
qed

text \<open>
  C2. When the rules of the group are read and the run returns, applying its calls, in
  the order it made them, to the current CIDR set of the HTTP port gives exactly the
  desired set.
\<close>

theorem C2_convergence:
  assumes "describe_security_groups ec2 (ByGroupIds [sg_id]) = Inr (g # gs)"
    and "snd (update_security_group ec2 sg_id desired) = Inr v"
  shows "apply_events HTTP_PORT (fst (update_security_group ec2 sg_id desired))
           (current_http_cidrs (IpPermissions g)) = set desired"
proof -
  from update_success [OF assms(2)] assms(1) obtain current
    where c: "collect_http {} (IpPermissions g) = Inr current"
      and t: "io_events (fst (update_security_group ec2 sg_id desired))
                = Describe (ByGroupIds [sg_id]) # planned sg_id desired (IpPermissions g)"
    by auto
  from collect_http_Inr [OF c] have cur: "current_http_cidrs (IpPermissions g) = current"
    by simp
  have "apply_events HTTP_PORT (fst (update_security_group ec2 sg_id desired)) current
          = apply_events HTTP_PORT (io_events (fst (update_security_group ec2 sg_id desired))) current"
    by (simp only: apply_events_io_events)
  also have "\<dots> = apply_events HTTP_PORT (planned_http sg_id current (set desired)) current"
    by (simp add: t planned_def c apply_planned_ssh)
  also have "\<dots> = set desired"
    by (rule apply_planned_http)
  finally show ?thesis by (simp add: cur)
qed

theorem C2_convergence_witness:
  "apply_events HTTP_PORT
     (fst (update_security_group (ec2_with perms_stale) ''sg-1'' [''2.2.2.2/32'', ''3.3.3.3/32'']))
     {''1.1.1.1/32'', ''2.2.2.2/32''} = {''2.2.2.2/32'', ''3.3.3.3/32''}"
proof -
  have d: "describe_security_groups (ec2_with perms_stale) (ByGroupIds [''sg-1''])
             = Inr (\<lparr>GroupId = ''sg-1'', IpPermissions = perms_stale\<rparr> # [])"
    by (simp add: ec2_with_def)
  have s: "snd (update_security_group (ec2_with perms_stale) ''sg-1''
                  [''2.2.2.2/32'', ''3.3.3.3/32'']) = Inr True"
    by (simp add: update_ec2_with collect_perms_stale)
  have c: "current_http_cidrs perms_stale = {''1.1.1.1/32'', ''2.2.2.2/32''}"
    using collect_http_Inr [OF collect_perms_stale] by simp
  from C2_convergence [OF d s] show ?thesis by (simp add: c insert_Diff_if)
qed

text \<open>
  C3. When the CIDRs read off the HTTP port are already the desired ones and SSH is
  already open to all addresses, the run performs the read and nothing else, and
  returns \<^verbatim>\<open>True\<close>.
\<close>

theorem C3_noop:
  assumes "describe_security_groups ec2 (ByGroupIds [sg_id]) = Inr (g # gs)"
    and "collect_http {} (IpPermissions g) = Inr (set desired)"
    and "ssh_is_open (IpPermissions g)"
  shows "update_security_group ec2 sg_id desired = ([Describe (ByGroupIds [sg_id])], Inr True)
         \<and> mutations (fst (update_security_group ec2 sg_id desired)) = []"
proof -
  from assms(3) have o: "scan_ssh False (IpPermissions g)" by (simp add: scan_ssh_iff)
  have b: "update_body ec2 sg_id desired (IpPermissions g) = ([], Inr True)"
    by (simp add: update_body_def then_io_def bind_io_def ensure_ssh_eq sync_http_eq assms(2) o
        ssh_part_def revoke_part_def authorize_part_def)
  show ?thesis by (simp add: update_group [OF assms(1)] b)
qed

theorem C3_noop_witness:
  "update_security_group (ec2_with perms_synced) ''sg-1'' [''2.2.2.2/32'', ''3.3.3.3/32'']
     = ([Describe (ByGroupIds [''sg-1''])], Inr True)"
proof -
  have d: "describe_security_groups (ec2_with perms_synced) (ByGroupIds [''sg-1''])
             = Inr (\<lparr>GroupId = ''sg-1'', IpPermissions = perms_synced\<rparr> # [])"
    by (simp add: ec2_with_def)
  have c: "collect_http {} (IpPermissions \<lparr>GroupId = ''sg-1'', IpPermissions = perms_synced\<rparr>)
             = Inr (set [''2.2.2.2/32'', ''3.3.3.3/32''])"
    by (simp add: collect_perms_synced)
  have o: "ssh_is_open (IpPermissions \<lparr>GroupId = ''sg-1'', IpPermissions = perms_synced\<rparr>)"
    using scan_perms(2) by (simp add: scan_ssh_iff)
  from C3_noop [OF d c o] show ?thesis by simp
qed

text \<open>
  C4. Whatever the client answers and whatever is desired, no call of a run revokes on
  the SSH port, so the CIDR set of the SSH port only grows; the only call on the SSH port
  authorizes 0.0.0.0/0, and there is none when SSH is already open to all addresses.
\<close>

theorem C4_ssh_monotonic:
  "list_all (\<lambda>e. \<not> is_ssh_revoke e) (fst (update_security_group ec2 sg_id desired))
   \<and> s \<subseteq> apply_events SSH_PORT (fst (update_security_group ec2 sg_id desired)) s
   \<and> list_all (\<lambda>e. is_ssh_add e \<longrightarrow> e = Authorize (ssh_request sg_id))
       (fst (update_security_group ec2 sg_id desired))
   \<and> (\<forall>g gs. describe_security_groups ec2 (ByGroupIds [sg_id]) = Inr (g # gs)
              \<and> ssh_is_open (IpPermissions g)
         \<longrightarrow> filter is_ssh_add (fst (update_security_group ec2 sg_id desired)) = [])"
proof -
  let ?t = "fst (update_security_group ec2 sg_id desired)"
  have kinds: "(\<exists>m. e = Print m) \<or> e = Describe (ByGroupIds [sg_id])
                 \<or> e = Authorize (ssh_request sg_id)
                 \<or> (\<exists>cidrs. e = Revoke (http_request sg_id cidrs))
                 \<or> (\<exists>cidrs. e = Authorize (http_request sg_id cidrs))"
    if "e \<in> set ?t" for e
    using update_events_cases [OF that] planned_for_cases [of e ec2 sg_id desired] by blast
  have no_revoke: "list_all (\<lambda>e. \<not> is_ssh_revoke e) ?t"
    unfolding list_all_iff
  proof
    fix e assume "e \<in> set ?t"
    from kinds [OF this] show "\<not> is_ssh_revoke e"
      by (auto simp: http_request_def)
  qed
  have only_all: "list_all (\<lambda>e. is_ssh_add e \<longrightarrow> e = Authorize (ssh_request sg_id)) ?t"
    unfolding list_all_iff
  proof
    fix e assume "e \<in> set ?t"
    from kinds [OF this] show "is_ssh_add e \<longrightarrow> e = Authorize (ssh_request sg_id)"
      by auto
  qed
  have absent: "filter is_ssh_add ?t = []"
    if d: "describe_security_groups ec2 (ByGroupIds [sg_id]) = Inr (g # gs)"
      and o: "ssh_is_open (IpPermissions g)" for g gs
  proof -
    from o have "scan_ssh False (IpPermissions g)" by (simp add: scan_ssh_iff)
    then have "filter is_ssh_add (planned_for ec2 sg_id desired) = []"
      by (simp add: planned_for_def d planned_def planned_ssh_def planned_http_def
          split: sum.splits)
    with update_filter_le [of is_ssh_add ec2 sg_id desired] show ?thesis by simp
  qed
  from no_revoke apply_no_ssh_revoke [OF no_revoke] only_all absent show ?thesis by blast
qed

theorem C4_ssh_monotonic_witness:
  "{''0.0.0.0/0''} \<subseteq> apply_events SSH_PORT
       (fst (update_security_group (ec2_with perms_synced) ''sg-1'' [])) {''0.0.0.0/0''}
   \<and> filter is_ssh_add (fst (update_security_group (ec2_with perms_synced) ''sg-1'' [])) = []
   \<and> filter is_ssh_add (fst (update_security_group (ec2_with perms_stale) ''sg-1'' []))
       = [Authorize (ssh_request ''sg-1'')]"
proof -
  have d: "describe_security_groups (ec2_with perms_synced) (ByGroupIds [''sg-1''])
             = Inr (\<lparr>GroupId = ''sg-1'', IpPermissions = perms_synced\<rparr> # [])"
    by (simp add: ec2_with_def)
  have o: "ssh_is_open (IpPermissions \<lparr>GroupId = ''sg-1'', IpPermissions = perms_synced\<rparr>)"
    using scan_perms(2) by (simp add: scan_ssh_iff)
  have "filter is_ssh_add (fst (update_security_group (ec2_with perms_stale) ''sg-1'' []))
          = filter is_ssh_add (io_events (fst (update_security_group (ec2_with perms_stale) ''sg-1'' [])))"
    by (simp add: filter_io_events)
  then have a: "filter is_ssh_add (fst (update_security_group (ec2_with perms_stale) ''sg-1'' []))
                  = [Authorize (ssh_request ''sg-1'')]"
    by (simp add: io_events_ec2_with [OF collect_perms_stale] planned_def planned_ssh_def
        planned_http_def scan_perms collect_perms_stale)
  from C4_ssh_monotonic [of "ec2_with perms_synced" "''sg-1''" "[]" "{''0.0.0.0/0''}"] d o a
  show ?thesis by blast
qed

text \<open>
  C5. Whatever the client answers, a run calls the mutation sink at most three times: at
  most once to open SSH, at most once to revoke on the HTTP port, at most once to
  authorize on the HTTP port, and in no other way.
\<close>

theorem C5_at_most_three:
  "length (mutations (fst (update_security_group ec2 sg_id desired))) \<le> 3
   \<and> length (filter is_ssh_add (fst (update_security_group ec2 sg_id desired))) \<le> 1
   \<and> length (filter is_http_revoke (fst (update_security_group ec2 sg_id desired))) \<le> 1
   \<and> length (filter is_http_authorize (fst (update_security_group ec2 sg_id desired))) \<le> 1
   \<and> list_all (\<lambda>e. is_mutation e \<longrightarrow> is_ssh_add e \<or> is_http_revoke e \<or> is_http_authorize e)
       (fst (update_security_group ec2 sg_id desired))"
proof -
  let ?t = "fst (update_security_group ec2 sg_id desired)"
  have "length (filter is_mutation ?t) \<le> length (filter is_mutation (planned_for ec2 sg_id desired))"
    by (rule update_filter_le) simp_all
  with planned_for_counts(1) [of ec2 sg_id desired] have total: "length (mutations ?t) \<le> 3"
    by (simp add: mutations_def)
  have "length (filter is_ssh_add ?t) \<le> length (filter is_ssh_add (planned_for ec2 sg_id desired))"
    by (rule update_filter_le) simp_all
  with planned_for_counts(2) [of ec2 sg_id desired] have ssh: "length (filter is_ssh_add ?t) \<le> 1"
    by simp
  have "length (filter is_http_revoke ?t)
          \<le> length (filter is_http_revoke (planned_for ec2 sg_id desired))"
    by (rule update_filter_le) simp_all
  with planned_for_counts(3) [of ec2 sg_id desired]
  have rev: "length (filter is_http_revoke ?t) \<le> 1"
    by simp
  have "length (filter is_http_authorize ?t)
          \<le> length (filter is_http_authorize (planned_for ec2 sg_id desired))"
    by (rule update_filter_le) simp_all
  with planned_for_counts(4) [of ec2 sg_id desired]
  have auth: "length (filter is_http_authorize ?t) \<le> 1"
    by simp
  have kinds: "list_all (\<lambda>e. is_mutation e \<longrightarrow> is_ssh_add e \<or> is_http_revoke e \<or> is_http_authorize e) ?t"
    unfolding list_all_iff
  proof
    fix e assume "e \<in> set ?t"
    from update_events_cases [OF this] planned_for_cases [of e ec2 sg_id desired]
    show "is_mutation e \<longrightarrow> is_ssh_add e \<or> is_http_revoke e \<or> is_http_authorize e"
      by auto
  qed
  from total ssh rev auth kinds show ?thesis by blast
qed

theorem C5_at_most_three_witness:
  "length (mutations (fst (update_security_group (ec2_with perms_stale) ''sg-1''
      [''2.2.2.2/32'', ''3.3.3.3/32'']))) \<le> 3
   \<and> mutations (fst (update_security_group (ec2_with perms_stale) ''sg-1''
      [''2.2.2.2/32'', ''3.3.3.3/32'']))
     = [Authorize (ssh_request ''sg-1''),
        Revoke (http_request ''sg-1'' {''1.1.1.1/32''}),
        Authorize (http_request ''sg-1'' {''3.3.3.3/32''})]"
proof -
  have "mutations (fst (update_security_group (ec2_with perms_stale) ''sg-1''
          [''2.2.2.2/32'', ''3.3.3.3/32'']))
        = mutations (io_events (fst (update_security_group (ec2_with perms_stale) ''sg-1''
          [''2.2.2.2/32'', ''3.3.3.3/32''])))"
    by (simp only: mutations_io_events)
  then have "mutations (fst (update_security_group (ec2_with perms_stale) ''sg-1''
          [''2.2.2.2/32'', ''3.3.3.3/32'']))
        = [Authorize (ssh_request ''sg-1''),
           Revoke (http_request ''sg-1'' {''1.1.1.1/32''}),
           Authorize (http_request ''sg-1'' {''3.3.3.3/32''})]"
    by (simp add: io_events_ec2_with [OF collect_perms_stale] planned_def planned_ssh_def
        planned_http_def scan_perms collect_perms_stale insert_Diff_if)
  with C5_at_most_three [of "ec2_with perms_stale" "''sg-1''" "[''2.2.2.2/32'', ''3.3.3.3/32'']"]
  show ?thesis by simp
qed

text \<open>
  C10. The scans of the current permissions look at the ports alone: replacing the
  protocols of the permissions changes neither the CIDRs collected for the HTTP port nor
  whether SSH is found open. Every call of the mutation sink names the protocol tcp.
  What the scan for HTTP collects is the CIDRs of all permissions on the HTTP port, and
  the scan for SSH finds it open exactly when a permission on the SSH port holds
  0.0.0.0/0, whatever the protocols are.
\<close>

theorem C10_ports_only:
  "collect_http s (with_protocols f perms) = collect_http s perms
   \<and> scan_ssh b (with_protocols f perms) = scan_ssh b perms
   \<and> list_all (\<lambda>e. case request_of e of None \<Rightarrow> True | Some r \<Rightarrow> req_IpProtocol r = ''tcp'')
       (fst (update_security_group ec2 sg_id desired))
   \<and> (case collect_http s perms of
         Inl e \<Rightarrow> True
       | Inr current \<Rightarrow> current = s \<union> current_http_cidrs perms)
   \<and> scan_ssh b perms = (b \<or> ssh_is_open perms)"
proof -
  have contributes: "case collect_http s perms of
         Inl e \<Rightarrow> True
       | Inr current \<Rightarrow> current = s \<union> current_http_cidrs perms"
    using collect_http_Inr [of s perms] by (simp split: sum.splits)
  have counts: "scan_ssh b perms = (b \<or> ssh_is_open perms)"
    by (rule scan_ssh_iff)
  have c: "collect_http s (with_protocols f perms) = collect_http s perms" for s
    by (induction perms arbitrary: s)
       (auto simp: with_protocols_def on_port_def get_IpRanges_def split: sum.splits)
  have o: "scan_ssh b (with_protocols f perms) = scan_ssh b perms" for b
    by (induction perms arbitrary: b)
       (simp_all add: with_protocols_def on_port_def get_IpRanges_def)
  have t: "list_all (\<lambda>e. case request_of e of None \<Rightarrow> True | Some r \<Rightarrow> req_IpProtocol r = ''tcp'')
             (fst (update_security_group ec2 sg_id desired))"
    unfolding list_all_iff
  proof
    fix e assume "e \<in> set (fst (update_security_group ec2 sg_id desired))"
    from update_events_cases [OF this] planned_for_cases [of e ec2 sg_id desired]
    show "case request_of e of None \<Rightarrow> True | Some r \<Rightarrow> req_IpProtocol r = ''tcp''"
      by (auto simp: ssh_request_def http_request_def)
  qed
  from c o t contributes counts show ?thesis by blast
qed

theorem C10_ports_only_witness:
  "collect_http {} (with_protocols (\<lambda>p. Some ''udp'') perms_synced)
     = Inr {''2.2.2.2/32'', ''3.3.3.3/32''}
   \<and> scan_ssh False (with_protocols (\<lambda>p. Some ''udp'') perms_synced)
   \<and> collect_http {} perms_udp = Inr {''9.9.9.9/32''}
   \<and> scan_ssh False perms_udp
   \<and> mutations (fst (update_security_group (ec2_with perms_udp) ''sg-1'' []))
       = [Revoke \<lparr>req_GroupId = ''sg-1'', req_IpProtocol = ''tcp'', req_FromPort = 80,
                  req_ToPort = 80, req_CidrIps = {''9.9.9.9/32''}\<rparr>]"
proof -
  have "mutations (fst (update_security_group (ec2_with perms_udp) ''sg-1'' []))
        = mutations (io_events (fst (update_security_group (ec2_with perms_udp) ''sg-1'' [])))"
    by (simp only: mutations_io_events)
  then have m: "mutations (fst (update_security_group (ec2_with perms_udp) ''sg-1'' []))
        = [Revoke \<lparr>req_GroupId = ''sg-1'', req_IpProtocol = ''tcp'', req_FromPort = 80,
                   req_ToPort = 80, req_CidrIps = {''9.9.9.9/32''}\<rparr>]"
    by (simp add: io_events_ec2_with [OF collect_perms_udp] planned_def planned_ssh_def
        planned_http_def scan_perms collect_perms_udp http_request_def HTTP_PORT_def)
  from C10_ports_only [of "{}" "\<lambda>p. Some ''udp''" perms_synced False]
    m collect_perms_synced scan_perms(2) scan_perms(3) collect_perms_udp
  show ?thesis by simp
qed

section \<open>The whole run\<close>

subsection \<open>Sequencing, again\<close>

lemma bind_io_assoc: "bind_io (bind_io m f) g = bind_io m (\<lambda>x. bind_io (f x) g)"
  by (simp add: bind_io_def split: sum.splits)

lemma bind_io_Inl: "snd m = Inl a \<Longrightarrow> bind_io m f = (fst m, Inl a)"
  by (simp add: bind_io_def)

lemma bind_io_Inr: "snd m = Inr x \<Longrightarrow> bind_io m f = (fst m @ fst (f x), snd (f x))"
  by (simp add: bind_io_def)

lemma then_print: "then_io (print msg) k = (Print msg # fst k, snd k)"
  by (simp add: then_io_def bind_io_def print_def emit_def)

lemma main_split: "main w = then_io (main_to_step_6 w) (commit_and_report w)"
  by (simp add: main_def main_to_step_6_def then_io_def bind_io_assoc Let_def)

subsection \<open>Stages\<close>

lemma in_phases_Nil [simp]: "in_phases a b []"
  by (simp add: in_phases_def)

lemma in_phases_print [simp]: "in_phases a b (fst (print msg))"
  by (simp add: in_phases_def print_def emit_def)

lemma in_phases_Print [simp]: "in_phases a b (Print msg # t) = in_phases a b t"
  by (simp add: in_phases_def)

lemma in_phases_weaken:
  assumes "in_phases a b t" and "a' \<le> a" and "b \<le> b'"
  shows "in_phases a' b' t"
  using assms unfolding in_phases_def list_all_iff by fastforce

lemma in_phases_append:
  assumes "in_phases a b t" and "in_phases b c t'" and "a \<le> b" and "b \<le> c"
  shows "in_phases a c (t @ t')"
  using assms unfolding in_phases_def list_all_iff
  by (fastforce simp: sorted_append)

lemma in_phases_bind:
  assumes "in_phases a b (fst m)" and "\<And>x. in_phases b c (fst (f x))" and "a \<le> b" and "b \<le> c"
  shows "in_phases a c (fst (bind_io m f))"
proof (cases "snd m")
  case (Inl e)
  with in_phases_weaken [OF assms(1) order_refl assms(4)] show ?thesis
    by (simp add: bind_io_def)
next
  case (Inr x)
  with in_phases_append [OF assms(1) assms(2) [of x] assms(3) assms(4)] show ?thesis
    by (simp add: bind_io_def)
qed

lemma in_phases_then:
  assumes "in_phases a b (fst m)" and "in_phases b c (fst k)" and "a \<le> b" and "b \<le> c"
  shows "in_phases a c (fst (then_io m k))"
  unfolding then_io_def using assms by (intro in_phases_bind) auto

lemma in_phases_try:
  assumes "in_phases a b (fst m)" and "\<And>e. io_events (fst (h e)) = []"
  shows "in_phases a b (fst (try_except m c h))"
proof (cases "snd m")
  case (Inr x)
  with assms(1) show ?thesis by (simp add: try_except_def)
next
  case (Inl ab)
  show ?thesis
  proof (cases ab)
    case (SysExit n)
    with Inl assms(1) show ?thesis by (simp add: try_except_def)
  next
    case (Raised e)
    with Inl assms(1) assms(2) [of e] show ?thesis
      by (simp add: try_except_def in_phases_def)
  qed
qed

lemma in_phases_low_no_mutation:
  assumes "in_phases a 2 t"
  shows "mutations t = []"
proof -
  have "\<not> is_mutation e" if "e \<in> set t" for e
  proof (cases "is_print e")
    case True
    then show ?thesis by (cases e) simp_all
  next
    case False
    with that have "e \<in> set (io_events t)" by (simp add: io_events_def)
    with assms have "phase e \<le> 2" by (simp add: in_phases_def list_all_iff)
    then show ?thesis by (cases e) (simp_all split: if_splits)
  qed
  then show ?thesis by (simp add: mutations_def filter_empty_conv)
qed

lemma in_phases_low_no_config:
  assumes "in_phases a 5 t"
  shows "\<not> list_ex touches_config t"
proof -
  have "\<not> touches_config e" if "e \<in> set t" for e
  proof (cases "is_print e")
    case True
    then show ?thesis by (cases e) simp_all
  next
    case False
    with that have "e \<in> set (io_events t)" by (simp add: io_events_def)
    with assms have "phase e \<le> 5" by (simp add: in_phases_def list_all_iff)
    then show ?thesis by (cases e) (simp_all split: if_splits)
  qed
  then show ?thesis by (simp add: list_ex_iff)
qed

subsection \<open>The steps of main, one by one\<close>

lemma get_ok_events: "fst (get_ok w url) = [Http_Get url]"
  by (simp add: get_ok_def io_defs split: sum.splits)

lemma get_current_ip_events: "io_events (fst (get_current_ip w)) = [Http_Get CHECKIP_URL]"
  by (simp add: get_current_ip_def try_except_def bind_io_def get_ok_events print_def emit_def
      then_io_def sys_exit_def return_io_def split: sum.splits abort.splits)

lemma get_cloudflare_ips_events:
  "io_events (fst (get_cloudflare_ips w)) = [Http_Get CLOUDFLARE_IPV4_URL]"
  by (simp add: get_cloudflare_ips_def try_except_def bind_io_def get_ok_events print_def emit_def
      then_io_def sys_exit_def return_io_def split: sum.splits abort.splits)

lemma get_current_ip_result:
  "(\<exists>body. snd (get_current_ip w) = Inr (strip body @ ''/32''))
     \<or> snd (get_current_ip w) = Inl (SysExit 1)"
  by (auto simp: get_current_ip_def get_ok_def io_defs split: sum.splits abort.splits)

lemma get_cloudflare_ips_result:
  "(\<exists>cf_ips. snd (get_cloudflare_ips w) = Inr cf_ips)
     \<or> snd (get_cloudflare_ips w) = Inl (SysExit 1)"
  by (simp add: get_cloudflare_ips_def get_ok_def io_defs split: sum.splits abort.splits)

lemma in_phases_get_current_ip: "in_phases 0 0 (fst (get_current_ip w))"
  by (simp add: in_phases_def get_current_ip_events)

lemma in_phases_get_cloudflare_ips: "in_phases 0 0 (fst (get_cloudflare_ips w))"
  by (simp add: in_phases_def get_cloudflare_ips_events)

lemma describe_events: "fst (describe ec2 args) = [Describe args]"
  by (simp add: describe_def io_defs split: sum.splits)

lemma in_phases_describe_filter:
  "in_phases 1 1 (fst (describe ec2 name_filter))" "in_phases 1 1 (fst (describe ec2 ssh_filter))"
  by (simp_all add: describe_events in_phases_def name_filter_def ssh_filter_def)

lemma in_phases_get_security_group_id: "in_phases 1 1 (fst (get_security_group_id ec2))"
  unfolding get_security_group_id_def
proof (intro in_phases_try in_phases_bind [where b = 1])
  show "in_phases 1 1 (fst (describe ec2 name_filter))" by (rule in_phases_describe_filter)
next
  fix response :: "security_group list"
  have inner: "in_phases 1 1
       (fst (bind_io (describe ec2 ssh_filter)
              (\<lambda>response.
                  if response \<noteq> []
                  then let sg = hd response
                       in then_io (print (Found_SSH_Group (GroupId sg))) (return_io (GroupId sg))
                  else then_io (print Error_No_Group) (sys_exit 1))))"
    by (intro in_phases_bind [where b = 1] in_phases_describe_filter)
       (simp_all add: Let_def then_print return_io_def sys_exit_def)
  show "in_phases 1 1
          (fst (if response \<noteq> [] then return_io (GroupId (hd response))
                else then_io (print Group_Not_Named)
                       (bind_io (describe ec2 ssh_filter)
                         (\<lambda>response.
                             if response \<noteq> []
                             then let sg = hd response
                                  in then_io (print (Found_SSH_Group (GroupId sg)))
                                       (return_io (GroupId sg))
                             else then_io (print Error_No_Group) (sys_exit 1)))))"
    using inner by (simp add: then_print return_io_def)
qed (simp_all add: then_print sys_exit_def)

lemma get_security_group_id_result:
  "(\<exists>sg_id. snd (get_security_group_id ec2) = Inr sg_id)
     \<or> snd (get_security_group_id ec2) = Inl (SysExit 1)"
  by (simp add: get_security_group_id_def describe_def io_defs Let_def
      split: sum.splits abort.splits)

lemma planned_phases:
  "map phase (planned_ssh sg_id perms) = (if scan_ssh False perms then [] else [3])"
  "map phase (planned_http sg_id current target)
     = (if current - target = {} then [] else [4]) @ (if target - current = {} then [] else [5])"
  by (simp_all add: planned_ssh_def planned_http_def)

lemma planned_sorted: "sorted (map phase (planned sg_id allowed perms))"
proof (cases "collect_http {} perms")
  case (Inl e)
  then show ?thesis by (simp add: planned_def planned_phases(1))
next
  case (Inr current)
  then have "map phase (planned sg_id allowed perms)
               = (if scan_ssh False perms then [] else [3])
                 @ (if current - set allowed = {} then [] else [4])
                 @ (if set allowed - current = {} then [] else [5])"
    by (simp only: planned_def sum.case map_append planned_phases)
  then show ?thesis by simp
qed

lemma planned_for_sorted: "sorted (map phase (planned_for ec2 sg_id allowed))"
  by (simp add: planned_for_def planned_sorted split: sum.splits list.splits)

lemma planned_for_bounds:
  "list_all (\<lambda>e. 3 \<le> phase e \<and> phase e \<le> 5) (planned_for ec2 sg_id allowed)"
  unfolding list_all_iff
proof
  fix e assume "e \<in> set (planned_for ec2 sg_id allowed)"
  from planned_for_cases [OF this] show "3 \<le> phase e \<and> phase e \<le> 5" by auto
qed

lemma in_phases_update: "in_phases 2 5 (fst (update_security_group ec2 sg_id allowed))"
proof -
  obtain ms where t: "io_events (fst (update_security_group ec2 sg_id allowed))
                        = Describe (ByGroupIds [sg_id]) # ms"
    and p: "prefix ms (planned_for ec2 sg_id allowed)"
    using update_io_events by blast
  from p obtain rest where r: "planned_for ec2 sg_id allowed = ms @ rest"
    by (auto simp: prefix_def)
  from planned_for_sorted [of ec2 sg_id allowed] have s: "sorted (map phase ms)"
    by (simp add: r sorted_append)
  from planned_for_bounds [of ec2 sg_id allowed]
  have b: "list_all (\<lambda>e. 3 \<le> phase e \<and> phase e \<le> 5) ms"
    by (simp add: r)
  from s b show ?thesis
    unfolding in_phases_def t list_all_iff by fastforce
qed

lemma in_phases_load_yaml_config: "in_phases 6 6 (fst (load_yaml_config w))"
  by (simp add: load_yaml_config_def in_phases_def io_defs split: sum.splits)

lemma in_phases_set_rules: "fst (set_rules target cfg) = []"
  by (simp add: set_rules_def io_defs Let_def split: option.splits)

lemma in_phases_save_yaml_config: "in_phases 7 7 (fst (save_yaml_config w cfg))"
  by (simp add: save_yaml_config_def in_phases_def io_defs split: option.splits)

lemma in_phases_update_yaml: "in_phases 6 7 (fst (update_yaml w target))"
proof -
  have save: "in_phases 6 7 (fst (then_io (save_yaml_config w cfg') (print Updated_Yaml)))" for cfg'
    by (intro in_phases_then [where b = 7] in_phases_weaken [OF in_phases_save_yaml_config]) simp_all
  have sets: "in_phases 6 7 (fst (bind_io (set_rules target cfg)
                (\<lambda>cfg'. then_io (save_yaml_config w cfg') (print Updated_Yaml))))" for cfg
    using save by (simp add: bind_io_def in_phases_set_rules split: sum.splits)
  show ?thesis
    unfolding update_yaml_def
    by (intro in_phases_bind [where b = 6] in_phases_load_yaml_config sets) simp_all
qed

lemma in_phases_sync_and_save: "in_phases 2 7 (fst (sync_and_save w ec2 sg_id target))"
  unfolding sync_and_save_def
proof (rule in_phases_then [where b = 5])
  show "in_phases 2 5 (fst (update_security_group ec2 sg_id target))" by (rule in_phases_update)
next
  have "in_phases 5 7 (fst (update_yaml w target))"
    using in_phases_update_yaml by (rule in_phases_weaken) simp_all
  then show "in_phases 5 7 (fst (then_io (print Synced) (update_yaml w target)))"
    by (simp add: then_print)
qed simp_all

lemma check_call_events: "fst (check_call w args) = [Subprocess args]"
  by (simp add: check_call_def io_defs split: sum.splits)

lemma in_phases_check_call: "in_phases 8 8 (fst (check_call w args))"
  by (simp add: check_call_events in_phases_def)

lemma in_phases_git: "in_phases 8 8 (fst (git_commit_and_push w))"
  unfolding git_commit_and_push_def
proof (intro in_phases_try in_phases_bind [where b = 8] in_phases_check_call)
  fix status :: string
  have "in_phases 8 8 (fst (then_io (check_call w git_pull)
                 (then_io (check_call w git_add)
                    (then_io (check_call w git_commit)
                       (then_io (check_call w git_push) (return_io ()))))))"
    by (intro in_phases_then [where b = 8] in_phases_check_call) (simp_all add: return_io_def)
  then show "in_phases 8 8
          (fst (if status = [] then print No_Changes
                else then_io (print Committing)
                       (then_io (check_call w git_pull)
                         (then_io (check_call w git_add)
                           (then_io (check_call w git_commit)
                             (then_io (check_call w git_push) (return_io ())))))))"
    by (simp add: then_print)
qed (simp_all add: print_def emit_def)

lemma in_phases_commit_and_report: "in_phases 8 8 (fst (commit_and_report w))"
  unfolding commit_and_report_def
  by (intro in_phases_then [where b = 8] in_phases_git) (simp_all add: then_print)

lemma in_phases_steps_after_ip:
  "in_phases 0 7
     (fst (bind_io (get_cloudflare_ips w) (\<lambda>cf_ips.
           then_io (print (Fetched_Ranges (length cf_ips)))
             (then_io (print (Detected_Region (detect_region w)))
                (bind_io (get_security_group_id (client w (detect_region w))) (\<lambda>sg_id.
                   then_io (print (Found_Group sg_id))
                     (sync_and_save w (client w (detect_region w)) sg_id
                        (target_cidrs home_ip cf_ips))))))))"
proof (rule in_phases_bind [where b = 0])
  show "in_phases 0 0 (fst (get_cloudflare_ips w))" by (rule in_phases_get_cloudflare_ips)
next
  fix cf_ips :: "string list"
  have "in_phases 1 7 (fst (bind_io (get_security_group_id (client w (detect_region w)))
          (\<lambda>sg_id. then_io (print (Found_Group sg_id))
             (sync_and_save w (client w (detect_region w)) sg_id (target_cidrs home_ip cf_ips)))))"
  proof (rule in_phases_bind [where b = 1])
    show "in_phases 1 1 (fst (get_security_group_id (client w (detect_region w))))"
      by (rule in_phases_get_security_group_id)
  next
    fix sg_id
    show "in_phases 1 7 (fst (then_io (print (Found_Group sg_id))
             (sync_and_save w (client w (detect_region w)) sg_id (target_cidrs home_ip cf_ips))))"
      using in_phases_weaken [OF in_phases_sync_and_save, of 1 7]
      by (simp add: then_print)
  qed simp_all
  then have "in_phases 0 7 (fst (bind_io (get_security_group_id (client w (detect_region w)))
          (\<lambda>sg_id. then_io (print (Found_Group sg_id))
             (sync_and_save w (client w (detect_region w)) sg_id (target_cidrs home_ip cf_ips)))))"
    by (rule in_phases_weaken) simp_all
  then show "in_phases 0 7
          (fst (then_io (print (Fetched_Ranges (length cf_ips)))
             (then_io (print (Detected_Region (detect_region w)))
                (bind_io (get_security_group_id (client w (detect_region w))) (\<lambda>sg_id.
                   then_io (print (Found_Group sg_id))
                     (sync_and_save w (client w (detect_region w)) sg_id
                        (target_cidrs home_ip cf_ips)))))))"
    by (simp add: then_print)
qed simp_all

lemma in_phases_main_to_step_6: "in_phases 0 7 (fst (main_to_step_6 w))"
  unfolding main_to_step_6_def Let_def
proof -
  have rest: "in_phases 0 7 (fst (then_io (print (Home_IP home_ip))
     (bind_io (get_cloudflare_ips w) (\<lambda>cf_ips.
           then_io (print (Fetched_Ranges (length cf_ips)))
             (then_io (print (Detected_Region (detect_region w)))
                (bind_io (get_security_group_id (client w (detect_region w))) (\<lambda>sg_id.
                   then_io (print (Found_Group sg_id))
                     (sync_and_save w (client w (detect_region w)) sg_id
                        (target_cidrs home_ip cf_ips)))))))))" for home_ip
    using in_phases_steps_after_ip [of w home_ip] by (simp add: then_print)
  have "in_phases 0 7
     (fst (bind_io (get_current_ip w) (\<lambda>home_ip.
        then_io (print (Home_IP home_ip))
          (bind_io (get_cloudflare_ips w) (\<lambda>cf_ips.
           then_io (print (Fetched_Ranges (length cf_ips)))
             (then_io (print (Detected_Region (detect_region w)))
                (bind_io (get_security_group_id (client w (detect_region w))) (\<lambda>sg_id.
                   then_io (print (Found_Group sg_id))
                     (sync_and_save w (client w (detect_region w)) sg_id
                        (target_cidrs home_ip cf_ips))))))))))"
    by (rule in_phases_bind [where b = 0], rule in_phases_get_current_ip, rule rest) simp_all
  then show "in_phases 0 7
     (fst (then_io (print Rule_Line) (then_io (print Title) (then_io (print Rule_Line)
       (bind_io (get_current_ip w) (\<lambda>home_ip.
        then_io (print (Home_IP home_ip))
          (bind_io (get_cloudflare_ips w) (\<lambda>cf_ips.
           then_io (print (Fetched_Ranges (length cf_ips)))
             (then_io (print (Detected_Region (detect_region w)))
                (bind_io (get_security_group_id (client w (detect_region w))) (\<lambda>sg_id.
                   then_io (print (Found_Group sg_id))
                     (sync_and_save w (client w (detect_region w)) sg_id
                        (target_cidrs home_ip cf_ips)))))))))))))"
    by (simp add: then_print)
qed

lemma in_phases_main: "in_phases 0 8 (fst (main w))"
  unfolding main_split
  by (intro in_phases_then [where b = 7] in_phases_main_to_step_6
      in_phases_weaken [OF in_phases_commit_and_report]) simp_all

subsection \<open>The run, decomposed\<close>

lemma in_phases_cong:
  "io_events t = io_events t' \<Longrightarrow> in_phases a b t = in_phases a b t'"
  by (simp add: in_phases_def)

lemma in_phases_high_no_mutation:
  assumes "in_phases 6 b t"
  shows "mutations t = []"
proof -
  have "\<not> is_mutation e" if "e \<in> set t" for e
  proof (cases "is_print e")
    case True
    then show ?thesis by (cases e) simp_all
  next
    case False
    with that have "e \<in> set (io_events t)" by (simp add: io_events_def)
    with assms have "6 \<le> phase e" by (simp add: in_phases_def list_all_iff)
    then show ?thesis by (cases e) (simp_all split: if_splits)
  qed
  then show ?thesis by (simp add: mutations_def filter_empty_conv)
qed

lemma in_phases_lookups:
  "in_phases 0 1
     (fst (get_current_ip w) @ fst (get_cloudflare_ips w)
        @ fst (get_security_group_id (client w (detect_region w))))"
proof -
  let ?ec2 = "client w (detect_region w)"
  have sg: "in_phases 0 1 (fst (get_security_group_id ?ec2))"
    using in_phases_get_security_group_id by (rule in_phases_weaken) simp_all
  have "in_phases 0 1 (fst (get_cloudflare_ips w) @ fst (get_security_group_id ?ec2))"
    using in_phases_get_cloudflare_ips sg by (rule in_phases_append) simp_all
  with in_phases_get_current_ip show ?thesis by (rule in_phases_append) simp_all
qed

lemma in_phases_preamble: "in_phases 0 1 (preamble w home_ip cf_ips sg_id)"
proof -
  have eq: "io_events (preamble w home_ip cf_ips sg_id)
      = io_events (fst (get_current_ip w) @ fst (get_cloudflare_ips w)
                     @ fst (get_security_group_id (client w (detect_region w))))"
    by (simp add: preamble_def)
  from in_phases_lookups [of w] show ?thesis
    unfolding in_phases_def eq by simp
qed

lemma main_to_step_6_reached:
  assumes "snd (get_current_ip w) = Inr home_ip"
    and "snd (get_cloudflare_ips w) = Inr cf_ips"
    and "snd (get_security_group_id (client w (detect_region w))) = Inr sg_id"
  shows "main_to_step_6 w =
           (preamble w home_ip cf_ips sg_id
              @ fst (sync_and_save w (client w (detect_region w)) sg_id (target_cidrs home_ip cf_ips)),
            snd (sync_and_save w (client w (detect_region w)) sg_id (target_cidrs home_ip cf_ips)))"
  by (simp add: main_to_step_6_def Let_def then_print bind_io_def assms preamble_def)

lemma main_to_step_6_not_reached:
  assumes "\<not> (\<exists>home_ip cf_ips sg_id.
                snd (get_current_ip w) = Inr home_ip
                \<and> snd (get_cloudflare_ips w) = Inr cf_ips
                \<and> snd (get_security_group_id (client w (detect_region w))) = Inr sg_id)"
  shows "in_phases 0 1 (fst (main_to_step_6 w)) \<and> snd (main_to_step_6 w) = Inl (SysExit 1)"
proof (cases "snd (get_current_ip w)")
  case (Inl a)
  with get_current_ip_result [of w] have a: "snd (get_current_ip w) = Inl (SysExit 1)" by auto
  then have "main_to_step_6 w
               = ([Print Rule_Line, Print Title, Print Rule_Line] @ fst (get_current_ip w),
                  Inl (SysExit 1))"
    by (simp add: main_to_step_6_def then_print bind_io_def)
  moreover have "in_phases 0 1 (fst (get_current_ip w))"
    using in_phases_get_current_ip by (rule in_phases_weaken) simp_all
  ultimately show ?thesis by simp
next
  case ip: (Inr home_ip)
  show ?thesis
  proof (cases "snd (get_cloudflare_ips w)")
    case (Inl a)
    with get_cloudflare_ips_result [of w] have a: "snd (get_cloudflare_ips w) = Inl (SysExit 1)"
      by auto
    with ip have "main_to_step_6 w
               = ([Print Rule_Line, Print Title, Print Rule_Line] @ fst (get_current_ip w)
                    @ [Print (Home_IP home_ip)] @ fst (get_cloudflare_ips w),
                  Inl (SysExit 1))"
      by (simp add: main_to_step_6_def then_print bind_io_def)
    moreover have "in_phases 0 1 (fst (get_cloudflare_ips w))"
      using in_phases_get_cloudflare_ips by (rule in_phases_weaken) simp_all
    with in_phases_get_current_ip
    have "in_phases 0 1 (fst (get_current_ip w) @ fst (get_cloudflare_ips w))"
      by (rule in_phases_append) simp_all
    ultimately show ?thesis by (simp add: in_phases_def)
  next
    case cf: (Inr cf_ips)
    let ?ec2 = "client w (detect_region w)"
    from assms ip cf get_security_group_id_result [of ?ec2]
    have a: "snd (get_security_group_id ?ec2) = Inl (SysExit 1)" by auto
    with ip cf have "main_to_step_6 w
               = ([Print Rule_Line, Print Title, Print Rule_Line] @ fst (get_current_ip w)
                    @ [Print (Home_IP home_ip)] @ fst (get_cloudflare_ips w)
                    @ [Print (Fetched_Ranges (length cf_ips)), Print (Detected_Region (detect_region w))]
                    @ fst (get_security_group_id ?ec2),
                  Inl (SysExit 1))"
      by (simp add: main_to_step_6_def Let_def then_print bind_io_def)
    moreover have "in_phases 0 1 (preamble w home_ip cf_ips [])"
      by (rule in_phases_preamble)
    ultimately show ?thesis by (simp add: in_phases_def preamble_def)
  qed
qed

lemma sync_and_save_failed:
  assumes "snd (update_security_group ec2 sg_id target) = Inl a"
  shows "sync_and_save w ec2 sg_id target = (fst (update_security_group ec2 sg_id target), Inl a)"
  using assms by (simp add: sync_and_save_def then_io_def bind_io_def)

lemma sync_and_save_synced:
  assumes "snd (update_security_group ec2 sg_id target) = Inr v"
  shows "sync_and_save w ec2 sg_id target =
           (fst (update_security_group ec2 sg_id target) @ Print Synced # fst (update_yaml w target),
            snd (update_yaml w target))"
  using assms by (simp add: sync_and_save_def then_io_def bind_io_def print_def emit_def)

lemma main_failed:
  assumes "snd (main_to_step_6 w) = Inl a"
  shows "main w = (fst (main_to_step_6 w), Inl a)"
  using assms by (simp add: main_split then_io_def bind_io_def)

lemma main_saved:
  assumes "snd (main_to_step_6 w) = Inr v"
  shows "main w = (fst (main_to_step_6 w) @ fst (commit_and_report w), snd (commit_and_report w))"
  using assms by (simp add: main_split then_io_def bind_io_def)

lemma commit_and_report_eq:
  "commit_and_report w =
     (case snd (git_commit_and_push w) of
        Inl a \<Rightarrow> (fst (git_commit_and_push w), Inl a)
      | Inr u \<Rightarrow> (fst (git_commit_and_push w)
                   @ [Print Rule_Line, Print Completed, Print Test_URL, Print Rule_Line], Inr ()))"
  by (simp add: commit_and_report_def then_io_def bind_io_def print_def emit_def split: sum.splits)

subsection \<open>The YAML file\<close>

lemma map_of_dict_set_same: "map_of (dict_set k v rs) k = Some v"
  by (induction rs) auto

lemma map_of_dict_set_other: "k' \<noteq> k \<Longrightarrow> map_of (dict_set k v rs) k' = map_of rs k'"
  by (induction rs) auto

lemma set_rules_http:
  assumes "snd (set_rules target cfg) = Inr cfg'"
  shows "\<exists>rs. rules cfg' = Some rs \<and> map_of rs ''http'' = Some target"
proof (cases "rules cfg")
  case None
  with assms show ?thesis by (simp add: set_rules_def raise_io_def)
next
  case (Some rs)
  with assms have "rules cfg' = Some (dict_set ''http'' target rs)
                     \<or> rules cfg' = Some (dict_set ''ssh'' [''0.0.0.0/0''] (dict_set ''http'' target rs))"
    by (auto simp: set_rules_def return_io_def Let_def split: if_splits)
  then show ?thesis
    by (auto simp: map_of_dict_set_same map_of_dict_set_other)
qed

lemma update_yaml_written:
  assumes "snd (update_yaml w target) = Inr v"
  shows "\<exists>cfg rs. Write_Yaml YAML_FILE cfg \<in> set (fst (update_yaml w target))
                  \<and> rules cfg = Some rs \<and> map_of rs ''http'' = Some target"
proof -
  from assms obtain cfg0 where l: "snd (load_yaml_config w) = Inr cfg0"
    by (cases "snd (load_yaml_config w)") (simp_all add: update_yaml_def bind_io_def)
  from assms l obtain cfg' where s: "snd (set_rules target cfg0) = Inr cfg'"
    by (cases "snd (set_rules target cfg0)") (simp_all add: update_yaml_def bind_io_def)
  from l s have "Write_Yaml YAML_FILE cfg' \<in> set (fst (update_yaml w target))"
    by (simp add: update_yaml_def bind_io_def then_io_def save_yaml_config_def emit_def
        split: sum.splits)
  with set_rules_http [OF s] show ?thesis by blast
qed

subsection \<open>git\<close>

lemma check_call_result:
  "snd (check_call w args) = (case run w args of Inl e \<Rightarrow> Inl (Raised e) | Inr out \<Rightarrow> Inr out)"
  by (simp add: check_call_def io_defs split: sum.splits)

lemma then_check_call:
  "then_io (check_call w args) k =
     (case run w args of
        Inl e \<Rightarrow> ([Subprocess args], Inl (Raised e))
      | Inr out \<Rightarrow> (Subprocess args # fst k, snd k))"
  by (simp add: check_call_def io_defs split: sum.splits)

lemma bind_check_call:
  "bind_io (check_call w args) f =
     (case run w args of
        Inl e \<Rightarrow> ([Subprocess args], Inl (Raised e))
      | Inr out \<Rightarrow> (Subprocess args # fst (f out), snd (f out)))"
  by (simp add: check_call_def io_defs split: sum.splits)

lemma git_body_eq:
  "git_commit_and_push w =
     try_except
       (bind_io (check_call w git_status) (\<lambda>status.
          if status = [] then print No_Changes
          else
            then_io (print Committing)
              (then_io (check_call w git_pull)
                 (then_io (check_call w git_add)
                    (then_io (check_call w git_commit)
                       (then_io (check_call w git_push) (return_io ())))))))
       (\<lambda>e. e = CalledProcessError)
       (\<lambda>e. print (Git_Failed e))"
  by (simp add: git_commit_and_push_def)

text \<open>
  A computation of the git step either returns, or raises what a failed command raises;
  and when one of the commands it ran failed, it raised.
\<close>

lemma git_step:
  assumes "git_fails_by_status w"
    and "(snd k = Inr () \<or> snd k = Inl (Raised CalledProcessError))
         \<and> (\<forall>args e. Subprocess args \<in> set (fst k) \<and> run w args = Inl e
               \<longrightarrow> snd k = Inl (Raised CalledProcessError))"
  shows "(snd (then_io (check_call w c) k) = Inr ()
            \<or> snd (then_io (check_call w c) k) = Inl (Raised CalledProcessError))
         \<and> (\<forall>args e. Subprocess args \<in> set (fst (then_io (check_call w c) k))
                \<and> run w args = Inl e
               \<longrightarrow> snd (then_io (check_call w c) k) = Inl (Raised CalledProcessError))"
proof (cases "run w c")
  case (Inl e)
  with assms(1) have "e = CalledProcessError" by (simp add: git_fails_by_status_def)
  with Inl show ?thesis by (simp add: then_check_call)
next
  case (Inr out)
  with assms(2) show ?thesis by (auto simp: then_check_call)
qed

lemma git_body:
  assumes "git_fails_by_status w"
  shows "(snd (bind_io (check_call w git_status) (\<lambda>status.
          if status = [] then print No_Changes
          else
            then_io (print Committing)
              (then_io (check_call w git_pull)
                 (then_io (check_call w git_add)
                    (then_io (check_call w git_commit)
                       (then_io (check_call w git_push) (return_io ()))))))) = Inr ()
          \<or> snd (bind_io (check_call w git_status) (\<lambda>status.
          if status = [] then print No_Changes
          else
            then_io (print Committing)
              (then_io (check_call w git_pull)
                 (then_io (check_call w git_add)
                    (then_io (check_call w git_commit)
                       (then_io (check_call w git_push) (return_io ()))))))) = Inl (Raised CalledProcessError))
         \<and> (\<forall>args e. Subprocess args \<in> set (fst (bind_io (check_call w git_status) (\<lambda>status.
          if status = [] then print No_Changes
          else
            then_io (print Committing)
              (then_io (check_call w git_pull)
                 (then_io (check_call w git_add)
                    (then_io (check_call w git_commit)
                       (then_io (check_call w git_push) (return_io ())))))))) \<and> run w args = Inl e
               \<longrightarrow> snd (bind_io (check_call w git_status) (\<lambda>status.
          if status = [] then print No_Changes
          else
            then_io (print Committing)
              (then_io (check_call w git_pull)
                 (then_io (check_call w git_add)
                    (then_io (check_call w git_commit)
                       (then_io (check_call w git_push) (return_io ()))))))) = Inl (Raised CalledProcessError))"
proof (cases "run w git_status")
  case (Inl e)
  with assms have "e = CalledProcessError" by (simp add: git_fails_by_status_def)
  with Inl show ?thesis by (simp add: bind_check_call)
next
  case (Inr status)
  let ?k4 = "then_io (check_call w git_push) (return_io ())"
  let ?k3 = "then_io (check_call w git_commit) ?k4"
  let ?k2 = "then_io (check_call w git_add) ?k3"
  let ?k1 = "then_io (check_call w git_pull) ?k2"
  have k4: "(snd ?k4 = Inr () \<or> snd ?k4 = Inl (Raised CalledProcessError))
         \<and> (\<forall>args e. Subprocess args \<in> set (fst ?k4) \<and> run w args = Inl e
               \<longrightarrow> snd ?k4 = Inl (Raised CalledProcessError))"
    by (rule git_step [OF assms]) (simp add: return_io_def)
  have k3: "(snd ?k3 = Inr () \<or> snd ?k3 = Inl (Raised CalledProcessError))
         \<and> (\<forall>args e. Subprocess args \<in> set (fst ?k3) \<and> run w args = Inl e
               \<longrightarrow> snd ?k3 = Inl (Raised CalledProcessError))"
    by (rule git_step [OF assms k4])
  have k2: "(snd ?k2 = Inr () \<or> snd ?k2 = Inl (Raised CalledProcessError))
         \<and> (\<forall>args e. Subprocess args \<in> set (fst ?k2) \<and> run w args = Inl e
               \<longrightarrow> snd ?k2 = Inl (Raised CalledProcessError))"
    by (rule git_step [OF assms k3])
  have k1: "(snd ?k1 = Inr () \<or> snd ?k1 = Inl (Raised CalledProcessError))
         \<and> (\<forall>args e. Subprocess args \<in> set (fst ?k1) \<and> run w args = Inl e
               \<longrightarrow> snd ?k1 = Inl (Raised CalledProcessError))"
    by (rule git_step [OF assms k2])
  show ?thesis
  proof (cases "status = []")
    case True
    with Inr show ?thesis by (auto simp: bind_check_call print_def emit_def)
  next
    case False
    with Inr k1 show ?thesis by (auto simp: bind_check_call then_print)
  qed
qed

lemma git_returns:
  assumes "git_fails_by_status w"
  shows "snd (git_commit_and_push w) = Inr ()"
  using git_body [OF assms]
  unfolding git_body_eq
  by (auto simp: try_except_def print_def emit_def)

lemma git_logged:
  assumes "git_fails_by_status w"
    and "Subprocess args \<in> set (fst (git_commit_and_push w))"
    and "run w args = Inl e"
  shows "Print (Git_Failed CalledProcessError) \<in> set (fst (git_commit_and_push w))"
proof -
  let ?body = "bind_io (check_call w git_status) (\<lambda>status.
          if status = [] then print No_Changes
          else
            then_io (print Committing)
              (then_io (check_call w git_pull)
                 (then_io (check_call w git_add)
                    (then_io (check_call w git_commit)
                       (then_io (check_call w git_push) (return_io ()))))))"
  have g: "git_commit_and_push w
             = try_except ?body (\<lambda>e. e = CalledProcessError) (\<lambda>e. print (Git_Failed e))"
    by (rule git_body_eq)
  show ?thesis
  proof (cases "snd ?body = Inl (Raised CalledProcessError)")
    case True
    then show ?thesis by (simp add: g try_except_def print_def emit_def)
  next
    case False
    with git_body [OF assms(1)] have ok: "snd ?body = Inr ()" by blast
    then have "fst (git_commit_and_push w) = fst ?body"
      by (simp add: g try_except_def)
    with assms(2) have "Subprocess args \<in> set (fst ?body)" by simp
    with git_body [OF assms(1)] assms(3) False show ?thesis by blast
  qed
qed

subsection \<open>Concrete runs\<close>

lemma strip_ip: "strip ''3.3.3.3\<newline>'' = ''3.3.3.3''"
  by (simp add: strip_def isspace_def)

lemma strip_cidr: "strip ''2.2.2.2/32'' = ''2.2.2.2/32''"
  by (simp add: strip_def isspace_def)

lemma splitlines_cidr: "splitlines ''2.2.2.2/32\<newline>'' = [''2.2.2.2/32'']"
  by (simp add: splitlines_def is_linebreak_def)

lemma urls_differ: "CLOUDFLARE_IPV4_URL \<noteq> CHECKIP_URL"
  by (simp add: CLOUDFLARE_IPV4_URL_def CHECKIP_URL_def)

lemma get_current_ip_example:
  "get_current_ip (world_with ec2 git) = ([Http_Get CHECKIP_URL], Inr ''3.3.3.3/32'')"
  by (simp add: get_current_ip_def get_ok_def io_defs world_with_def strip_ip)

lemma get_cloudflare_ips_example:
  "get_cloudflare_ips (world_with ec2 git) = ([Http_Get CLOUDFLARE_IPV4_URL], Inr [''2.2.2.2/32''])"
  by (simp add: get_cloudflare_ips_def get_ok_def io_defs world_with_def urls_differ
      splitlines_cidr strip_cidr)

lemma target_example:
  "target_cidrs ''3.3.3.3/32'' [''2.2.2.2/32''] = [''2.2.2.2/32'', ''3.3.3.3/32'']"
  by (simp add: target_cidrs_def sorted_list_of_set_sort_remdups)

lemma client_example [simp]: "client (world_with ec2 git) region = ec2"
  by (simp add: world_with_def)

lemma get_security_group_id_example:
  "get_security_group_id (ec2_with perms) = ([Describe name_filter], Inr ''sg-1'')"
  by (simp add: get_security_group_id_def describe_def io_defs ec2_with_def)

lemma get_security_group_id_unreadable:
  "get_security_group_id ec2_unreadable = ([Describe name_filter], Inr ''sg-1'')"
  by (simp add: get_security_group_id_def describe_def io_defs ec2_unreadable_def name_filter_def)

lemma update_yaml_example:
  "update_yaml (world_with ec2 git) target
     = ([Path_Exists YAML_FILE, Read_Yaml YAML_FILE,
         Write_Yaml YAML_FILE
           \<lparr>rules = Some [(''http'', target), (''ssh'', [''0.0.0.0/0''])], other_keys = []\<rparr>,
         Print Updated_Yaml], Inr ())"
  by (simp add: update_yaml_def load_yaml_config_def set_rules_def save_yaml_config_def io_defs
      world_with_def Let_def)

lemma git_clean_example:
  "git_commit_and_push (world_with ec2 git_clean) = ([Subprocess git_status, Print No_Changes], Inr ())"
  by (simp add: git_commit_and_push_def check_call_def io_defs world_with_def git_clean_def)

lemma git_push_fails_example:
  "git_commit_and_push (world_with ec2 git_push_fails)
     = ([Subprocess git_status, Print Committing, Subprocess git_pull, Subprocess git_add,
         Subprocess git_commit, Subprocess git_push, Print (Git_Failed CalledProcessError)], Inr ())"
  by (simp add: git_commit_and_push_def check_call_def io_defs world_with_def git_push_fails_def
      git_status_def git_pull_def git_add_def git_commit_def git_push_def)

lemma update_stale_example:
  "update_security_group (ec2_with perms_stale) ''sg-1'' [''2.2.2.2/32'', ''3.3.3.3/32'']
     = ([Describe (ByGroupIds [''sg-1'']),
         Print Adding_SSH, Authorize (ssh_request ''sg-1''),
         Print (Revoking 1), Revoke (http_request ''sg-1'' {''1.1.1.1/32''}),
         Print (Authorizing 1), Authorize (http_request ''sg-1'' {''3.3.3.3/32''})], Inr True)"
proof -
  have d: "describe_security_groups (ec2_with perms_stale) (ByGroupIds [''sg-1''])
             = Inr (\<lparr>GroupId = ''sg-1'', IpPermissions = perms_stale\<rparr> # [])"
    by (simp add: ec2_with_def)
  have a: "authorize_security_group_ingress (ec2_with perms_stale) r = None" for r
    by (simp add: ec2_with_def)
  have r: "revoke_security_group_ingress (ec2_with perms_stale) r = None" for r
    by (simp add: ec2_with_def)
  show ?thesis
    unfolding update_group [OF d]
    by (simp add: update_body_def then_io_def bind_io_def ensure_ssh_eq sync_http_eq a r
        collect_perms_stale scan_perms ssh_part_def revoke_part_def authorize_part_def
        insert_Diff_if)
qed

lemma main_to_step_6_example:
  "main_to_step_6 (world_with (ec2_with perms_stale) git)
     = ([Print Rule_Line, Print Title, Print Rule_Line,
         Http_Get CHECKIP_URL, Print (Home_IP ''3.3.3.3/32''),
         Http_Get CLOUDFLARE_IPV4_URL, Print (Fetched_Ranges 1),
         Print (Detected_Region ''eu-west-1''),
         Describe name_filter, Print (Found_Group ''sg-1''),
         Describe (ByGroupIds [''sg-1'']),
         Print Adding_SSH, Authorize (ssh_request ''sg-1''),
         Print (Revoking 1), Revoke (http_request ''sg-1'' {''1.1.1.1/32''}),
         Print (Authorizing 1), Authorize (http_request ''sg-1'' {''3.3.3.3/32''}),
         Print Synced,
         Path_Exists YAML_FILE, Read_Yaml YAML_FILE,
         Write_Yaml YAML_FILE
           \<lparr>rules = Some [(''http'', [''2.2.2.2/32'', ''3.3.3.3/32'']), (''ssh'', [''0.0.0.0/0''])],
            other_keys = []\<rparr>,
         Print Updated_Yaml], Inr ())"
proof -
  let ?w = "world_with (ec2_with perms_stale) git"
  have ip: "snd (get_current_ip ?w) = Inr ''3.3.3.3/32''"
    by (simp add: get_current_ip_example)
  have cf: "snd (get_cloudflare_ips ?w) = Inr [''2.2.2.2/32'']"
    by (simp add: get_cloudflare_ips_example)
  have sg: "snd (get_security_group_id (client ?w (detect_region ?w))) = Inr ''sg-1''"
    by (simp add: client_example get_security_group_id_example)
  have region: "detect_region ?w = ''eu-west-1''"
    by (simp add: detect_region_def world_with_def)
  have sync: "sync_and_save ?w (ec2_with perms_stale) ''sg-1'' [''2.2.2.2/32'', ''3.3.3.3/32'']
     = ([Describe (ByGroupIds [''sg-1'']),
         Print Adding_SSH, Authorize (ssh_request ''sg-1''),
         Print (Revoking 1), Revoke (http_request ''sg-1'' {''1.1.1.1/32''}),
         Print (Authorizing 1), Authorize (http_request ''sg-1'' {''3.3.3.3/32''}),
         Print Synced,
         Path_Exists YAML_FILE, Read_Yaml YAML_FILE,
         Write_Yaml YAML_FILE
           \<lparr>rules = Some [(''http'', [''2.2.2.2/32'', ''3.3.3.3/32'']), (''ssh'', [''0.0.0.0/0''])],
            other_keys = []\<rparr>,
         Print Updated_Yaml], Inr ())"
    by (simp add: sync_and_save_synced [where v = True] update_stale_example update_yaml_example)
  show ?thesis
    unfolding main_to_step_6_reached [OF ip cf sg]
    by (simp add: client_example target_example sync preamble_def get_current_ip_example
        get_cloudflare_ips_example get_security_group_id_example region)
qed

section \<open>The claims about the whole run\<close>

text \<open>
  C6. When reading the rules of the group fails, \<^verbatim>\<open>update_security_group\<close>
  performs the read, prints the error and exits with status 1, without any call of the
  mutation sink; and the run of \<^verbatim>\<open>main\<close> that found this group exits with
  status 1 without any call of the mutation sink and without touching the YAML file.
\<close>

theorem C6_read_failure:
  assumes "describe_security_groups ec2 (ByGroupIds [sg_id]) = Inl e"
  shows "update_security_group ec2 sg_id desired
           = ([Describe (ByGroupIds [sg_id]), Print (Error_Updating e)], Inl (SysExit 1))
         \<and> mutations (fst (update_security_group ec2 sg_id desired)) = []
         \<and> exit_code (update_security_group ec2 sg_id desired) = 1
         \<and> (ec2 = client w (detect_region w) \<and> snd (get_security_group_id ec2) = Inr sg_id
              \<longrightarrow> mutations (fst (main w)) = [] \<and> exit_code (main w) = 1
                  \<and> \<not> list_ex touches_config (fst (main w)))"
proof -
  have u: "update_security_group ec2 sg_id desired
             = ([Describe (ByGroupIds [sg_id]), Print (Error_Updating e)], Inl (SysExit 1))" for desired
    using assms by (rule update_read_failure)
  have run: "mutations (fst (main w)) = [] \<and> exit_code (main w) = 1
               \<and> \<not> list_ex touches_config (fst (main w))"
    if c: "ec2 = client w (detect_region w)" and g: "snd (get_security_group_id ec2) = Inr sg_id"
  proof -
    have "in_phases 0 2 (fst (main_to_step_6 w)) \<and> snd (main_to_step_6 w) = Inl (SysExit 1)"
    proof (cases "\<exists>home_ip cf_ips sg_id.
                snd (get_current_ip w) = Inr home_ip
                \<and> snd (get_cloudflare_ips w) = Inr cf_ips
                \<and> snd (get_security_group_id (client w (detect_region w))) = Inr sg_id")
      case False
      from main_to_step_6_not_reached [OF this] in_phases_weaken [of 0 1 _ 0 2]
      show ?thesis by auto
    next
      case True
      then obtain home_ip cf_ips sg_id'
        where ip: "snd (get_current_ip w) = Inr home_ip"
          and cf: "snd (get_cloudflare_ips w) = Inr cf_ips"
          and sg: "snd (get_security_group_id (client w (detect_region w))) = Inr sg_id'"
        by blast
      from sg g c have same: "sg_id' = sg_id" by simp
      have s: "sync_and_save w ec2 sg_id (target_cidrs home_ip cf_ips)
                 = ([Describe (ByGroupIds [sg_id]), Print (Error_Updating e)], Inl (SysExit 1))"
        using sync_and_save_failed [of ec2 sg_id "target_cidrs home_ip cf_ips" "SysExit 1" w]
        by (simp add: u)
      have m: "main_to_step_6 w
                 = (preamble w home_ip cf_ips sg_id
                      @ [Describe (ByGroupIds [sg_id]), Print (Error_Updating e)], Inl (SysExit 1))"
        using main_to_step_6_reached [OF ip cf sg] s c same by simp
      have "in_phases 0 2 (preamble w home_ip cf_ips sg_id)"
        using in_phases_preamble by (rule in_phases_weaken) simp_all
      moreover have "in_phases 2 2 [Describe (ByGroupIds [sg_id]), Print (Error_Updating e)]"
        by (simp add: in_phases_def)
      ultimately have "in_phases 0 2
          (preamble w home_ip cf_ips sg_id @ [Describe (ByGroupIds [sg_id]), Print (Error_Updating e)])"
        by (rule in_phases_append) simp_all
      with m show ?thesis by simp
    qed
    then have p: "in_phases 0 2 (fst (main w))" and r: "snd (main w) = Inl (SysExit 1)"
      by (simp_all add: main_failed)
    from p have "in_phases 0 5 (fst (main w))" by (rule in_phases_weaken) simp_all
    with in_phases_low_no_mutation [OF p] in_phases_low_no_config r show ?thesis
      by (simp add: exit_code_def)
  qed
  have a: "mutations (fst (update_security_group ec2 sg_id desired)) = []"
    by (simp add: u)
  have b: "exit_code (update_security_group ec2 sg_id desired) = 1"
    by (simp add: u exit_code_def)
  from u [of desired] a b run show ?thesis by blast
qed

theorem C6_read_failure_witness:
  "update_security_group ec2_unreadable ''sg-1'' [''2.2.2.2/32'']
     = ([Describe (ByGroupIds [''sg-1'']), Print (Error_Updating ClientError)], Inl (SysExit 1))
   \<and> mutations (fst (main (world_with ec2_unreadable git_clean))) = []
   \<and> exit_code (main (world_with ec2_unreadable git_clean)) = 1"
proof -
  have d: "describe_security_groups ec2_unreadable (ByGroupIds [''sg-1'']) = Inl ClientError"
    by (simp add: ec2_unreadable_def)
  from C6_read_failure [OF d, of "[''2.2.2.2/32'']" "world_with ec2_unreadable git_clean"]
  show ?thesis by (simp add: get_security_group_id_unreadable)
qed

lemma get_current_ip_value:
  assumes "snd (get_current_ip w) = Inr home_ip"
  shows "\<exists>response. requests_get w CHECKIP_URL = Inr response
           \<and> home_ip = strip (text_body response) @ ''/32''"
  using assms
  by (auto simp: get_current_ip_def get_ok_def io_defs split: sum.splits abort.splits if_splits)

lemma get_cloudflare_ips_value:
  assumes "snd (get_cloudflare_ips w) = Inr cf_ips"
  shows "\<exists>response. requests_get w CLOUDFLARE_IPV4_URL = Inr response
           \<and> cf_ips = map strip (filter (\<lambda>ip. strip ip \<noteq> []) (splitlines (text_body response)))"
  using assms
  by (auto simp: get_cloudflare_ips_def get_ok_def io_defs split: sum.splits abort.splits if_splits)

text \<open>
  C7. In a run of \<^verbatim>\<open>main\<close> that returns, with the caller's address and the CDN
  ranges as the two lookups gave them: the address ends in /32; the desired list is
  sorted, without duplicates, and holds exactly the address and the ranges; the calls of
  the mutation sink are those of \<^verbatim>\<open>update_security_group\<close> on this list; and the
  document written to the YAML file has this list under the key http. The address is
  the stripped body that the address endpoint served, followed by /32, and the ranges
  are the stripped non-blank lines of the body that the CDN endpoint served.
\<close>

theorem C7_desired_config:
  assumes "snd (get_current_ip w) = Inr home_ip"
    and "snd (get_cloudflare_ips w) = Inr cf_ips"
    and "snd (get_security_group_id (client w (detect_region w))) = Inr sg_id"
    and "snd (main w) = Inr v"
  shows "(\<exists>body. home_ip = strip body @ ''/32'')
         \<and> sorted (target_cidrs home_ip cf_ips)
         \<and> distinct (target_cidrs home_ip cf_ips)
         \<and> set (target_cidrs home_ip cf_ips) = insert home_ip (set cf_ips)
         \<and> mutations (fst (main w))
             = mutations (fst (update_security_group (client w (detect_region w)) sg_id
                                 (target_cidrs home_ip cf_ips)))
         \<and> (\<exists>cfg rs. Write_Yaml YAML_FILE cfg \<in> set (fst (main w))
                \<and> rules cfg = Some rs
                \<and> map_of rs ''http'' = Some (target_cidrs home_ip cf_ips))
         \<and> (\<exists>response. requests_get w CHECKIP_URL = Inr response
                \<and> home_ip = strip (text_body response) @ ''/32'')
         \<and> (\<exists>response. requests_get w CLOUDFLARE_IPV4_URL = Inr response
                \<and> cf_ips = map strip (filter (\<lambda>ip. strip ip \<noteq> [])
                                          (splitlines (text_body response))))"
proof -
  note served = get_current_ip_value [OF assms(1)] get_cloudflare_ips_value [OF assms(2)]
  let ?ec2 = "client w (detect_region w)"
  let ?target = "target_cidrs home_ip cf_ips"
  from get_current_ip_result [of w] assms(1) have suffix: "\<exists>body. home_ip = strip body @ ''/32''"
    by auto
  have "sorted (sorted_list_of_set (set ([home_ip] @ cf_ips)))"
    and "distinct (sorted_list_of_set (set ([home_ip] @ cf_ips)))"
    and "set (sorted_list_of_set (set ([home_ip] @ cf_ips))) = set ([home_ip] @ cf_ips)"
    by (rule sorted_sorted_list_of_set, rule distinct_sorted_list_of_set,
        rule set_sorted_list_of_set, rule finite_set)
  then have pure: "sorted ?target \<and> distinct ?target \<and> set ?target = insert home_ip (set cf_ips)"
    unfolding target_cidrs_def by simp
  from assms(4) obtain v6 where m6: "snd (main_to_step_6 w) = Inr v6"
    by (cases "snd (main_to_step_6 w)") (simp_all add: main_failed)
  with main_to_step_6_reached [OF assms(1) assms(2) assms(3)]
  have ss: "snd (sync_and_save w ?ec2 sg_id ?target) = Inr v6"
    and t6: "fst (main_to_step_6 w) = preamble w home_ip cf_ips sg_id
               @ fst (sync_and_save w ?ec2 sg_id ?target)"
    by simp_all
  from ss obtain u where up: "snd (update_security_group ?ec2 sg_id ?target) = Inr u"
    by (cases "snd (update_security_group ?ec2 sg_id ?target)")
       (simp_all add: sync_and_save_failed)
  from sync_and_save_synced [OF up] ss
  have yaml: "snd (update_yaml w ?target) = Inr v6"
    and ts: "fst (sync_and_save w ?ec2 sg_id ?target)
               = fst (update_security_group ?ec2 sg_id ?target) @ Print Synced
                   # fst (update_yaml w ?target)"
    by simp_all
  have trace: "fst (main w) = preamble w home_ip cf_ips sg_id
                 @ fst (update_security_group ?ec2 sg_id ?target) @ Print Synced
                 # fst (update_yaml w ?target) @ fst (commit_and_report w)"
    by (simp add: main_saved [OF m6] t6 ts)
  have "in_phases 0 2 (preamble w home_ip cf_ips sg_id)"
    using in_phases_preamble by (rule in_phases_weaken) simp_all
  then have m1: "mutations (preamble w home_ip cf_ips sg_id) = []"
    by (rule in_phases_low_no_mutation)
  have m2: "mutations (fst (update_yaml w ?target)) = []"
    using in_phases_update_yaml by (rule in_phases_high_no_mutation)
  have "in_phases 6 8 (fst (commit_and_report w))"
    using in_phases_commit_and_report by (rule in_phases_weaken) simp_all
  then have m3: "mutations (fst (commit_and_report w)) = []"
    by (rule in_phases_high_no_mutation)
  have calls: "mutations (fst (main w)) = mutations (fst (update_security_group ?ec2 sg_id ?target))"
    by (simp add: trace m1 m2 m3)
  from update_yaml_written [OF yaml] obtain cfg rs
    where "Write_Yaml YAML_FILE cfg \<in> set (fst (update_yaml w ?target))"
      and "rules cfg = Some rs" and "map_of rs ''http'' = Some ?target"
    by blast
  then have written: "\<exists>cfg rs. Write_Yaml YAML_FILE cfg \<in> set (fst (main w))
                \<and> rules cfg = Some rs \<and> map_of rs ''http'' = Some ?target"
    by (auto simp: trace)
  from suffix pure calls written served show ?thesis by blast
qed

theorem C7_desired_config_witness:
  "target_cidrs ''3.3.3.3/32'' [''2.2.2.2/32''] = [''2.2.2.2/32'', ''3.3.3.3/32'']
   \<and> sorted (target_cidrs ''3.3.3.3/32'' [''2.2.2.2/32''])
   \<and> set (target_cidrs ''3.3.3.3/32'' [''2.2.2.2/32'']) = {''3.3.3.3/32'', ''2.2.2.2/32''}
   \<and> (\<exists>cfg rs. Write_Yaml YAML_FILE cfg
                  \<in> set (fst (main (world_with (ec2_with perms_stale) git_clean)))
        \<and> rules cfg = Some rs
        \<and> map_of rs ''http'' = Some (target_cidrs ''3.3.3.3/32'' [''2.2.2.2/32'']))"
proof -
  let ?w = "world_with (ec2_with perms_stale) git_clean"
  have ip: "snd (get_current_ip ?w) = Inr ''3.3.3.3/32''"
    by (simp add: get_current_ip_example)
  have cf: "snd (get_cloudflare_ips ?w) = Inr [''2.2.2.2/32'']"
    by (simp add: get_cloudflare_ips_example)
  have sg: "snd (get_security_group_id (client ?w (detect_region ?w))) = Inr ''sg-1''"
    by (simp add: get_security_group_id_example)
  have m6: "snd (main_to_step_6 ?w) = Inr ()"
    by (simp add: main_to_step_6_example)
  have ok: "snd (main ?w) = Inr ()"
    by (simp add: main_saved [OF m6] commit_and_report_eq git_clean_example)
  from C7_desired_config [OF ip cf sg ok] target_example show ?thesis by simp
qed

text \<open>
  C8, as the code has it. In every run of \<^verbatim>\<open>main\<close> the operations on the
  collaborators follow the stages in order: the two address lookups, finding the group,
  reading its rules, opening SSH, revoking on the HTTP port, authorizing on the HTTP
  port, reading the YAML file, writing it, git. The YAML file is touched only in a run
  where \<^verbatim>\<open>update_security_group\<close> has returned. Inside
  \<^verbatim>\<open>update_security_group\<close> the scan for the HTTP diff comes after the call that
  opens SSH: when that scan raises, the call has already been made.
\<close>

theorem C8_order:
  "sorted (map phase (io_events (fst (main w))))
   \<and> (list_ex touches_config (fst (main w)) \<longrightarrow> reconciled w)
   \<and> (describe_security_groups ec2 (ByGroupIds [sg_id]) = Inr (g # gs)
        \<and> \<not> scan_ssh False (IpPermissions g)
        \<and> authorize_security_group_ingress ec2 (ssh_request sg_id) = None
        \<and> collect_http {} (IpPermissions g) = Inl e
      \<longrightarrow> update_security_group ec2 sg_id allowed
            = ([Describe (ByGroupIds [sg_id]), Print Adding_SSH, Authorize (ssh_request sg_id),
                Print (Error_Updating e)], Inl (SysExit 1)))"
proof -
  have scan_after_ssh: "update_security_group ec2 sg_id allowed
            = ([Describe (ByGroupIds [sg_id]), Print Adding_SSH, Authorize (ssh_request sg_id),
                Print (Error_Updating e)], Inl (SysExit 1))"
    if d: "describe_security_groups ec2 (ByGroupIds [sg_id]) = Inr (g # gs)"
      and o: "\<not> scan_ssh False (IpPermissions g)"
      and a: "authorize_security_group_ingress ec2 (ssh_request sg_id) = None"
      and c: "collect_http {} (IpPermissions g) = Inl e"
    unfolding update_group [OF d]
    by (simp add: update_body_def then_io_def bind_io_def ensure_ssh_eq sync_http_eq
        ssh_part_def o a c)
  have order: "sorted (map phase (io_events (fst (main w))))"
    using in_phases_main [of w] by (simp add: in_phases_def)
  have "\<not> list_ex touches_config (fst (main w))" if n: "\<not> reconciled w"
  proof -
    have "in_phases 0 5 (fst (main_to_step_6 w)) \<and> (\<exists>a. snd (main_to_step_6 w) = Inl a)"
    proof (cases "\<exists>home_ip cf_ips sg_id.
                snd (get_current_ip w) = Inr home_ip
                \<and> snd (get_cloudflare_ips w) = Inr cf_ips
                \<and> snd (get_security_group_id (client w (detect_region w))) = Inr sg_id")
      case False
      from main_to_step_6_not_reached [OF this] in_phases_weaken [of 0 1 _ 0 5]
      show ?thesis by auto
    next
      case True
      then obtain home_ip cf_ips sg_id
        where ip: "snd (get_current_ip w) = Inr home_ip"
          and cf: "snd (get_cloudflare_ips w) = Inr cf_ips"
          and sg: "snd (get_security_group_id (client w (detect_region w))) = Inr sg_id"
        by blast
      let ?ec2 = "client w (detect_region w)"
      let ?target = "target_cidrs home_ip cf_ips"
      from n ip cf sg have "snd (update_security_group ?ec2 sg_id ?target) \<noteq> Inr True"
        by (simp add: reconciled_def)
      with update_success [of ?ec2 sg_id ?target]
      obtain a where a: "snd (update_security_group ?ec2 sg_id ?target) = Inl a"
        by (cases "snd (update_security_group ?ec2 sg_id ?target)") auto
      have m: "main_to_step_6 w
                 = (preamble w home_ip cf_ips sg_id @ fst (update_security_group ?ec2 sg_id ?target),
                    Inl a)"
        using main_to_step_6_reached [OF ip cf sg] sync_and_save_failed [OF a, of w] by simp
      have "in_phases 0 2 (preamble w home_ip cf_ips sg_id)"
        using in_phases_preamble by (rule in_phases_weaken) simp_all
      then have "in_phases 0 5
          (preamble w home_ip cf_ips sg_id @ fst (update_security_group ?ec2 sg_id ?target))"
        using in_phases_update by (rule in_phases_append) simp_all
      with m show ?thesis by simp
    qed
    then obtain a where "in_phases 0 5 (fst (main w))"
      by (auto simp: main_failed)
    then show ?thesis by (rule in_phases_low_no_config)
  qed
  with order scan_after_ssh show ?thesis by blast
qed

theorem C8_order_witness:
  "sorted (map phase (io_events (fst (main (world_with (ec2_with perms_stale) git_clean)))))
   \<and> list_ex touches_config (fst (main (world_with (ec2_with perms_stale) git_clean)))
   \<and> reconciled (world_with (ec2_with perms_stale) git_clean)
   \<and> update_security_group (ec2_with perms_malformed) ''sg-1'' [''2.2.2.2/32'']
       = ([Describe (ByGroupIds [''sg-1'']), Print Adding_SSH, Authorize (ssh_request ''sg-1''),
           Print (Error_Updating KeyError)], Inl (SysExit 1))"
proof -
  let ?w = "world_with (ec2_with perms_stale) git_clean"
  let ?g = "\<lparr>GroupId = ''sg-1'', IpPermissions = perms_malformed\<rparr>"
  have d: "describe_security_groups (ec2_with perms_malformed) (ByGroupIds [''sg-1''])
             = Inr (?g # [])"
    by (simp add: ec2_with_def)
  have o: "\<not> scan_ssh False (IpPermissions ?g)"
    by (simp add: perms_malformed_def on_port_def SSH_PORT_def)
  have a: "authorize_security_group_ingress (ec2_with perms_malformed) (ssh_request ''sg-1'') = None"
    by (simp add: ec2_with_def)
  have c: "collect_http {} (IpPermissions ?g) = Inl KeyError"
    by (simp add: perms_malformed_def on_port_def HTTP_PORT_def get_IpRanges_def)
  have m6: "snd (main_to_step_6 ?w) = Inr ()"
    by (simp add: main_to_step_6_example)
  have "list_ex touches_config (fst (main_to_step_6 ?w))"
    by (simp add: main_to_step_6_example)
  then have "list_ex touches_config (fst (main ?w))"
    by (simp add: main_saved [OF m6] list_ex_append)
  with C8_order [of ?w "ec2_with perms_malformed" "''sg-1''" ?g "[]" KeyError "[''2.2.2.2/32'']"]
    d o a c
  show ?thesis by simp
qed

text \<open>
  C8, as the specification words it, fails: in the run below everything succeeds, and
  the YAML file is first read after the rules of the group were read and after all three
  calls of the mutation sink.
\<close>

theorem C8_counterexample:
  "snd (main (world_with (ec2_with perms_stale) git_clean)) = Inr ()
   \<and> io_events (fst (main (world_with (ec2_with perms_stale) git_clean)))
       = [Http_Get CHECKIP_URL, Http_Get CLOUDFLARE_IPV4_URL,
          Describe name_filter, Describe (ByGroupIds [''sg-1'']),
          Authorize (ssh_request ''sg-1''),
          Revoke (http_request ''sg-1'' {''1.1.1.1/32''}),
          Authorize (http_request ''sg-1'' {''3.3.3.3/32''}),
          Path_Exists YAML_FILE, Read_Yaml YAML_FILE,
          Write_Yaml YAML_FILE
            \<lparr>rules = Some [(''http'', [''2.2.2.2/32'', ''3.3.3.3/32'']), (''ssh'', [''0.0.0.0/0''])],
             other_keys = []\<rparr>,
          Subprocess git_status]
   \<and> \<not> config_read_first (fst (main (world_with (ec2_with perms_stale) git_clean)))"
proof -
  let ?w = "world_with (ec2_with perms_stale) git_clean"
  have m6: "snd (main_to_step_6 ?w) = Inr ()"
    by (simp add: main_to_step_6_example)
  have m: "main ?w = (fst (main_to_step_6 ?w)
                        @ [Subprocess git_status, Print No_Changes,
                           Print Rule_Line, Print Completed, Print Test_URL, Print Rule_Line],
                      Inr ())"
    by (simp add: main_saved [OF m6] commit_and_report_eq git_clean_example)
  show ?thesis
    by (simp add: m main_to_step_6_example config_read_first_def first_index_def name_filter_def)
qed

text \<open>
  C9, as the code has it. When steps 1 to 6 of \<^verbatim>\<open>main\<close> have succeeded and
  every git command that fails does so by its exit status (the one failure that
  \<^verbatim>\<open>git_commit_and_push\<close> catches), \<^verbatim>\<open>main\<close> returns, with exit status 0
  and the closing message; and when a git command that was run has failed, the failure
  is printed.
\<close>

theorem C9_git_nonfatal:
  assumes "snd (main_to_step_6 w) = Inr v"
    and "git_fails_by_status w"
  shows "snd (main w) = Inr () \<and> exit_code (main w) = 0
         \<and> Print Completed \<in> set (fst (main w))
         \<and> (\<forall>args e. Subprocess args \<in> set (fst (main w)) \<and> run w args = Inl e
               \<longrightarrow> Print (Git_Failed CalledProcessError) \<in> set (fst (main w)))"
proof -
  from git_returns [OF assms(2)] have g: "snd (git_commit_and_push w) = Inr ()" .
  have c: "commit_and_report w
             = (fst (git_commit_and_push w)
                  @ [Print Rule_Line, Print Completed, Print Test_URL, Print Rule_Line], Inr ())"
    by (simp add: commit_and_report_eq g)
  have m: "main w = (fst (main_to_step_6 w) @ fst (git_commit_and_push w)
                       @ [Print Rule_Line, Print Completed, Print Test_URL, Print Rule_Line], Inr ())"
    by (simp add: main_saved [OF assms(1)] c)
  have "\<not> is_print e \<Longrightarrow> e \<in> set (fst (main_to_step_6 w)) \<Longrightarrow> phase e \<le> 7" for e
    using in_phases_main_to_step_6 [of w]
    by (simp add: in_phases_def list_all_iff io_events_def)
  from this [of "Subprocess args" for args]
  have early: "Subprocess args \<notin> set (fst (main_to_step_6 w))" for args
    by auto
  have logged: "Print (Git_Failed CalledProcessError) \<in> set (fst (main w))"
    if "Subprocess args \<in> set (fst (main w))" and "run w args = Inl e" for args e
  proof -
    from that(1) early have "Subprocess args \<in> set (fst (git_commit_and_push w))"
      by (auto simp: m)
    from git_logged [OF assms(2) this that(2)] show ?thesis by (simp add: m)
  qed
  from m logged show ?thesis by (auto simp: exit_code_def)
qed

theorem C9_git_nonfatal_witness:
  "snd (main (world_with (ec2_with perms_stale) git_push_fails)) = Inr ()
   \<and> exit_code (main (world_with (ec2_with perms_stale) git_push_fails)) = 0
   \<and> Print Completed \<in> set (fst (main (world_with (ec2_with perms_stale) git_push_fails)))
   \<and> Print (Git_Failed CalledProcessError)
       \<in> set (fst (main (world_with (ec2_with perms_stale) git_push_fails)))"
proof -
  let ?w = "world_with (ec2_with perms_stale) git_push_fails"
  have m6: "snd (main_to_step_6 ?w) = Inr ()"
    by (simp add: main_to_step_6_example)
  have g: "git_fails_by_status ?w"
    by (simp add: git_fails_by_status_def world_with_def git_push_fails_def)
  have r: "run ?w git_push = Inl CalledProcessError"
    by (simp add: world_with_def git_push_fails_def)
  have "Subprocess git_push \<in> set (fst (git_commit_and_push ?w))"
    by (simp add: git_push_fails_example)
  then have s: "Subprocess git_push \<in> set (fst (main ?w))"
    by (simp add: main_saved [OF m6] commit_and_report_eq git_push_fails_example)
  from C9_git_nonfatal [OF m6 g] s r show ?thesis by blast
qed

lemma git_push_unspawnable_example:
  "git_commit_and_push (world_with ec2 git_push_unspawnable)
     = ([Subprocess git_status, Print Committing, Subprocess git_pull, Subprocess git_add,
         Subprocess git_commit, Subprocess git_push], Inl (Raised OtherError))"
  by (simp add: git_commit_and_push_def check_call_def io_defs world_with_def
      git_push_unspawnable_def git_status_def git_pull_def git_add_def git_commit_def
      git_push_def)

text \<open>
  C9, as the specification words it, fails: in the run below steps 1 to 6 succeed and
  the push cannot be started. The exception is not the one that
  \<^verbatim>\<open>git_commit_and_push\<close> catches, so it ends the run: the exit status is 1, and
  neither the failure nor the closing message is printed.
\<close>

theorem C9_counterexample:
  "snd (main_to_step_6 (world_with (ec2_with perms_stale) git_push_unspawnable)) = Inr ()
   \<and> run (world_with (ec2_with perms_stale) git_push_unspawnable) git_push = Inl OtherError
   \<and> Subprocess git_push
       \<in> set (fst (main (world_with (ec2_with perms_stale) git_push_unspawnable)))
   \<and> snd (main (world_with (ec2_with perms_stale) git_push_unspawnable))
       = Inl (Raised OtherError)
   \<and> exit_code (main (world_with (ec2_with perms_stale) git_push_unspawnable)) = 1
   \<and> Print (Git_Failed OtherError)
       \<notin> set (fst (main (world_with (ec2_with perms_stale) git_push_unspawnable)))
   \<and> Print Completed
       \<notin> set (fst (main (world_with (ec2_with perms_stale) git_push_unspawnable)))"
proof -
  let ?w = "world_with (ec2_with perms_stale) git_push_unspawnable"
  have m6: "snd (main_to_step_6 ?w) = Inr ()"
    by (simp add: main_to_step_6_example)
  have r: "run ?w git_push = Inl OtherError"
    by (simp add: world_with_def git_push_unspawnable_def)
  have m: "main ?w
             = (fst (main_to_step_6 ?w)
                  @ [Subprocess git_status, Print Committing, Subprocess git_pull,
                     Subprocess git_add, Subprocess git_commit, Subprocess git_push],
                Inl (Raised OtherError))"
    by (simp add: main_saved [OF m6] commit_and_report_eq git_push_unspawnable_example)
  have t: "Subprocess git_push \<in> set (fst (main ?w))
           \<and> Print (Git_Failed OtherError) \<notin> set (fst (main ?w))
           \<and> Print Completed \<notin> set (fst (main ?w))"
    by (simp add: m main_to_step_6_example)
  from m6 r m t show ?thesis by (simp add: exit_code_def)
qed

end
